theory Spec2Isabelle
  imports Complex_Main
begin

section \<open>Data model\<close>

text \<open>
  The development embeds \<^verbatim>\<open>auto_ts/models/ar_based/sarimax.py\<close>: the class
  \<^verbatim>\<open>BuildSarimax\<close> with its methods \<^verbatim>\<open>fit\<close> and \<^verbatim>\<open>predict\<close>.

  A series is the ordered sequence of (timestamp, value) rows of the input frame.
  Floats that may be infinite or undefined are kept apart from the reals.
\<close>

type_synonym series = "(int \<times> real) list"

datatype pyfloat = Fin real | PosInf | NegInf | NaN

text \<open>Exceptions of the Python run time and of the numerical libraries.\<close>

datatype exn = TypeError | IndexError | AttributeError | ValueError | LinAlgError | RuntimeError

text \<open>Values handed to \<^verbatim>\<open>print\<close> through the \<^verbatim>\<open>%\<close> operator.\<close>

datatype pyval = PyInt int | PyFloat pyfloat | PyStr string | PyShape nat

text \<open>The attributes of a \<^verbatim>\<open>BuildSarimax\<close> object, as \<^verbatim>\<open>__init__\<close> sets them.\<close>

record 'r BuildSarimax =
  metric :: string
  seasonality :: bool
  seasonal_period :: "int option"
  p_max :: int
  d_max :: int
  q_max :: int
  forecast_period :: int
  verbose :: int
  model :: "'r option"

definition init :: "string \<Rightarrow> bool \<Rightarrow> int option \<Rightarrow> int \<Rightarrow> int \<Rightarrow> int \<Rightarrow> int \<Rightarrow> int
    \<Rightarrow> 'r BuildSarimax" where
  "init metric' seasonality' seasonal_period' p_max' d_max' q_max' forecast_period' verbose' =
     \<lparr> metric = metric', seasonality = seasonality', seasonal_period = seasonal_period',
       p_max = p_max', d_max = d_max', q_max = q_max',
       forecast_period = forecast_period', verbose = verbose', model = None \<rparr>"

text \<open>The keyword arguments of the three \<^verbatim>\<open>SARIMAX(...)\<close> constructor calls.\<close>

record sarimax_args =
  endog :: series
  order :: "int \<times> int \<times> int"
  seasonal_order :: "(int \<times> int \<times> int \<times> int option) option"
  enforce_stationarity :: bool
  enforce_invertibility :: bool
  trend :: string
  start_params :: "int list"
  simple_differencing :: bool

text \<open>A prediction-results object: the predicted mean and its confidence interval.\<close>

record prediction =
  predicted_mean :: series
  conf_int :: "(int \<times> real \<times> real) list"

type_synonym concat_frame = "(int \<times> pyfloat \<times> pyfloat) list"

type_synonym forecast_frame = "(int \<times> real \<times> real \<times> real \<times> real) list"

text \<open>Calls into the plotting library made by the verbose branch of \<^verbatim>\<open>fit\<close>.\<close>

datatype plot_call =
    Frame_plot concat_frame
  | Mean_plot series
  | Fill_between "int list" "real list" "real list"
  | Fill_betweenx int int
  | Set_xlabel string
  | Set_ylabel string
  | Legend
  | Show

text \<open>
  Every call that leaves \<^verbatim>\<open>fit\<close> is recorded, with its arguments, in the order in
  which it is made.
\<close>

datatype ('m, 'r) event =
    Print string "pyval list"
  | Call_find_best_pdq_or_PDQ series string int int int "(int \<times> int \<times> int) option"
      "int option" bool int
  | Call_SARIMAX sarimax_args
  | Call_fit 'm
  | Call_eval_metric 'r string
  | Call_plot_diagnostics 'r
  | Call_predict 'r
  | Call_concat series series
  | Call_print_static_rmse "pyfloat list" "pyfloat list" int
  | Call_get_prediction 'r int
  | Call_plt plot_call
  | Call_get_forecast 'r int
  | Call_summary_frame prediction
  | Call_forecast 'r int
  | Call_summary 'r
  | Call_print_dynamic_rmse series series series

text \<open>
  The collaborators of \<^verbatim>\<open>fit\<close> that are imported from elsewhere: the order search
  and the two RMSE printers of this package, the text attributes of
  \<^verbatim>\<open>colorful\<close>, the estimator, the frame library and the plotting library.
  They are parameters of the model. A collaborator either returns or raises.
\<close>

record ('m, 'r) env =
  BOLD :: string
  END :: string
  find_best_pdq_or_PDQ :: "series \<Rightarrow> string \<Rightarrow> int \<Rightarrow> int \<Rightarrow> int \<Rightarrow> (int \<times> int \<times> int) option
      \<Rightarrow> int option \<Rightarrow> bool \<Rightarrow> int \<Rightarrow> exn + (int \<times> int \<times> int \<times> pyfloat \<times> bool)"
  SARIMAX :: "sarimax_args \<Rightarrow> exn + 'm"
  model_fit :: "'m \<Rightarrow> exn + 'r"
  eval_metric :: "'r \<Rightarrow> string \<Rightarrow> exn + pyfloat"
  plot_diagnostics :: "'r \<Rightarrow> exn option"
  model_predict :: "'r \<Rightarrow> exn + series"
  pd_concat :: "series \<Rightarrow> series \<Rightarrow> exn + concat_frame"
  print_static_rmse :: "pyfloat list \<Rightarrow> pyfloat list \<Rightarrow> int \<Rightarrow> exn option"
  get_prediction :: "'r \<Rightarrow> int \<Rightarrow> exn + prediction"
  plt :: "plot_call \<Rightarrow> exn option"
  get_forecast :: "'r \<Rightarrow> int \<Rightarrow> exn + prediction"
  summary_frame :: "prediction \<Rightarrow> exn + forecast_frame"
  forecast :: "'r \<Rightarrow> int \<Rightarrow> exn + series"
  summary :: "'r \<Rightarrow> exn + string"
  print_dynamic_rmse :: "series \<Rightarrow> series \<Rightarrow> series \<Rightarrow> exn + (pyfloat \<times> pyfloat)"

text \<open>
  What \<^verbatim>\<open>fit\<close> can reach: the object \<^verbatim>\<open>self\<close>, the frame \<^verbatim>\<open>ts_df\<close> it is
  given, and the record of the calls made so far.
\<close>

record ('m, 'r) world =
  self :: "'r BuildSarimax"
  ts_df :: series
  out :: "('m, 'r) event list"

text \<open>The first component of the tuple \<^verbatim>\<open>fit\<close> returns is either model object.\<close>

datatype ('m, 'r) handle = Unfitted 'm | Fitted 'r

type_synonym ('m, 'r) fit_result =
  "('m, 'r) handle \<times> forecast_frame option \<times> pyfloat \<times> pyfloat"

section \<open>Statements that change the world or raise\<close>

type_synonym ('m, 'r, 'a) prog = "('m, 'r) world \<Rightarrow> ('m, 'r) world \<times> (exn + 'a)"

definition preturn :: "'a \<Rightarrow> ('m, 'r, 'a) prog" where
  "preturn x w = (w, Inr x)"

definition praise :: "exn \<Rightarrow> ('m, 'r, 'a) prog" where
  "praise e w = (w, Inl e)"

definition pbind :: "('m, 'r, 'a) prog \<Rightarrow> ('a \<Rightarrow> ('m, 'r, 'b) prog) \<Rightarrow> ('m, 'r, 'b) prog" where
  "pbind m f w = (case m w of (w', Inl e) \<Rightarrow> (w', Inl e) | (w', Inr x) \<Rightarrow> f x w')"

definition try_except :: "('m, 'r, 'a) prog \<Rightarrow> (exn \<Rightarrow> ('m, 'r, 'a) prog) \<Rightarrow> ('m, 'r, 'a) prog" where
  "try_except m h w = (case m w of (w', Inl e) \<Rightarrow> h e w' | (w', Inr x) \<Rightarrow> (w', Inr x))"

definition pwhen :: "bool \<Rightarrow> ('m, 'r, unit) prog \<Rightarrow> ('m, 'r, unit) prog" where
  "pwhen b m = (if b then m else preturn ())"

definition emit :: "('m, 'r) event \<Rightarrow> ('m, 'r, unit) prog" where
  "emit ev w = (w\<lparr>out := out w @ [ev]\<rparr>, Inr ())"

definition call :: "('m, 'r) event \<Rightarrow> exn + 'a \<Rightarrow> ('m, 'r, 'a) prog" where
  "call ev r w = (w\<lparr>out := out w @ [ev]\<rparr>, r)"

definition call_unit :: "('m, 'r) event \<Rightarrow> exn option \<Rightarrow> ('m, 'r, unit) prog" where
  "call_unit ev r = call ev (case r of None \<Rightarrow> Inr () | Some e \<Rightarrow> Inl e)"

definition print :: "string \<Rightarrow> pyval list \<Rightarrow> ('m, 'r, unit) prog" where
  "print fmt args = emit (Print fmt args)"

definition set_model :: "'r \<Rightarrow> ('m, 'r, unit) prog" where
  "set_model res w = (w\<lparr>self := (self w)\<lparr>model := Some res\<rparr>\<rparr>, Inr ())"

definition get_model :: "('m, 'r, 'r option) prog" where
  "get_model w = (w, Inr (model (self w)))"

section \<open>Slices and subscripts\<close>

text \<open>
  \<^verbatim>\<open>xs[:k]\<close> and \<^verbatim>\<open>xs[k:]\<close>: a negative bound counts from the end, and a bound
  outside the sequence is clipped. \<^verbatim>\<open>xs[i]\<close> raises outside the sequence.
\<close>

definition slice_bound :: "int \<Rightarrow> nat \<Rightarrow> nat" where
  "slice_bound k n = (if k < 0 then nat (max 0 (k + int n)) else min (nat k) n)"

definition slice_to :: "int \<Rightarrow> 'a list \<Rightarrow> 'a list" where
  "slice_to k xs = take (slice_bound k (length xs)) xs"

definition slice_from :: "int \<Rightarrow> 'a list \<Rightarrow> 'a list" where
  "slice_from k xs = drop (slice_bound k (length xs)) xs"

definition getitem :: "'a list \<Rightarrow> int \<Rightarrow> exn + 'a" where
  "getitem xs i =
     (if 0 \<le> i \<and> i < int (length xs) then Inr (xs ! nat i)
      else if i < 0 \<and> - int (length xs) \<le> i then Inr (xs ! nat (i + int (length xs)))
      else Inl IndexError)"

abbreviation nl :: char where
  "nl \<equiv> CHR 0x0A"

section \<open>The class \<^verbatim>\<open>BuildSarimax\<close>\<close>

definition pget :: "('m, 'r, ('m, 'r) world) prog" where
  "pget w = (w, Inr w)"

definition plift :: "exn + 'a \<Rightarrow> ('m, 'r, 'a) prog" where
  "plift r w = (w, r)"

subsection \<open>\<^verbatim>\<open>predict\<close> (lines 170 to 181)\<close>

text \<open>
  \<^verbatim>\<open>self.model.forecast(n)\<close>: the attribute \<^verbatim>\<open>model\<close> is \<^verbatim>\<open>None\<close> until a fit
  has succeeded, and \<^verbatim>\<open>None\<close> has no method \<^verbatim>\<open>forecast\<close>.
\<close>

definition self_model_forecast :: "('m, 'r) env \<Rightarrow> int \<Rightarrow> ('m, 'r, series) prog" where
  "self_model_forecast env n =
     pbind get_model (\<lambda>m. case m of
         None \<Rightarrow> praise AttributeError
       | Some r \<Rightarrow> call (Call_forecast r n) (forecast env r n))"

definition predict :: "('m, 'r) env \<Rightarrow> int option \<Rightarrow> ('m, 'r, series) prog" where
  "predict env forecast_period' =
     (case forecast_period' of
        None \<Rightarrow> pbind pget (\<lambda>w. self_model_forecast env (forecast_period (self w)))
      | Some n \<Rightarrow> self_model_forecast env n)"

subsection \<open>\<^verbatim>\<open>fit\<close>: choosing the model (lines 41 to 105)\<close>

definition nonseasonal_model ::
  "('m, 'r) env \<Rightarrow> 'r BuildSarimax \<Rightarrow> series \<Rightarrow> ('m, 'r, 'm \<times> int) prog" where
  "nonseasonal_model env s ts_train =
     pbind (print ''Building a Non Seasonal Model...'' []) (\<lambda>_.
     pbind (print (nl # ''Finding best Non Seasonal Parameters:'') []) (\<lambda>_.
     pbind (call (Call_find_best_pdq_or_PDQ ts_train (metric s) (p_max s) (d_max s) (q_max s)
                    None None False (verbose s))
                 (find_best_pdq_or_PDQ env ts_train (metric s) (p_max s) (d_max s) (q_max s)
                    None None False (verbose s)))
       (\<lambda>(best_p, best_d, best_q, best_bic, seasonality).
     pbind (print (nl # ''Best model is: Non Seasonal SARIMAX(%d,%d,%d), %s = %0.3f'')
              [PyInt best_p, PyInt best_d, PyInt best_q, PyStr (metric s), PyFloat best_bic]) (\<lambda>_.
     pbind (call (Call_SARIMAX
                    \<lparr> endog = ts_train, order = (best_p, best_d, best_q), seasonal_order = None,
                      enforce_stationarity = False, enforce_invertibility = False,
                      trend = ''ct'', start_params = [0, 0, 0, 1],
                      simple_differencing = False \<rparr>)
                 (SARIMAX env
                    \<lparr> endog = ts_train, order = (best_p, best_d, best_q), seasonal_order = None,
                      enforce_stationarity = False, enforce_invertibility = False,
                      trend = ''ct'', start_params = [0, 0, 0, 1],
                      simple_differencing = False \<rparr>))
       (\<lambda>bestmodel. preturn (bestmodel, best_d))))))"

text \<open>
  In the seasonal branch the second search overwrites \<^verbatim>\<open>best_bic\<close> and
  \<^verbatim>\<open>seasonality\<close>. The message of line 78 formats \<^verbatim>\<open>self.seasonal_period\<close> with
  \<^verbatim>\<open>%d\<close>, which raises a \<^verbatim>\<open>TypeError\<close> on \<^verbatim>\<open>None\<close>.
\<close>

definition seasonal_model ::
  "('m, 'r) env \<Rightarrow> 'r BuildSarimax \<Rightarrow> series \<Rightarrow> ('m, 'r, 'm \<times> int) prog" where
  "seasonal_model env s ts_train =
     pbind (print (BOLD env @ ''Building a Seasonal Model...'' @ END env) []) (\<lambda>_.
     pbind (print (BOLD env @ nl # ''    Finding best Non-Seasonal pdq Parameters:'' @ END env) [])
       (\<lambda>_.
     pbind (call (Call_find_best_pdq_or_PDQ ts_train (metric s) (p_max s) (d_max s) (q_max s)
                    None None False (verbose s))
                 (find_best_pdq_or_PDQ env ts_train (metric s) (p_max s) (d_max s) (q_max s)
                    None None False (verbose s)))
       (\<lambda>(best_p, best_d, best_q, best_bic, seasonality).
     pbind (print (BOLD env @ nl # ''    Finding best Seasonal PDQ Model Parameters:'' @ END env) [])
       (\<lambda>_.
     pbind (call (Call_find_best_pdq_or_PDQ ts_train (metric s) (p_max s) (d_max s) (q_max s)
                    (Some (best_p, best_d, best_q)) (seasonal_period s) True (verbose s))
                 (find_best_pdq_or_PDQ env ts_train (metric s) (p_max s) (d_max s) (q_max s)
                    (Some (best_p, best_d, best_q)) (seasonal_period s) True (verbose s)))
       (\<lambda>(best_P, best_D, best_Q, best_bic, seasonality).
     if seasonality then
       pbind (case seasonal_period s of
                None \<Rightarrow> praise TypeError
              | Some sp \<Rightarrow>
                  print (nl # ''Best model is a Seasonal SARIMAX(%d,%d,%d)*(%d,%d,%d,%d), %s = %0.3f'')
                    [PyInt best_p, PyInt best_d, PyInt best_q, PyInt best_P, PyInt best_D,
                     PyInt best_Q, PyInt sp, PyStr (metric s), PyFloat best_bic]) (\<lambda>_.
       pbind (call (Call_SARIMAX
                      \<lparr> endog = ts_train, order = (best_p, best_d, best_q),
                        seasonal_order = Some (best_P, best_D, best_Q, seasonal_period s),
                        enforce_stationarity = False, enforce_invertibility = False,
                        trend = ''ct'', start_params = [0, 0, 0, 1],
                        simple_differencing = False \<rparr>)
                   (SARIMAX env
                      \<lparr> endog = ts_train, order = (best_p, best_d, best_q),
                        seasonal_order = Some (best_P, best_D, best_Q, seasonal_period s),
                        enforce_stationarity = False, enforce_invertibility = False,
                        trend = ''ct'', start_params = [0, 0, 0, 1],
                        simple_differencing = False \<rparr>))
         (\<lambda>bestmodel. preturn (bestmodel, best_d)))
     else
       pbind (print (nl # ''Best model is a Non Seasonal SARIMAX(%d,%d,%d)'')
                [PyInt best_p, PyInt best_d, PyInt best_q]) (\<lambda>_.
       pbind (call (Call_SARIMAX
                      \<lparr> endog = ts_train, order = (best_p, best_d, best_q), seasonal_order = None,
                        enforce_stationarity = False, enforce_invertibility = False,
                        trend = ''ct'', start_params = [0, 0, 0, 1],
                        simple_differencing = False \<rparr>)
                   (SARIMAX env
                      \<lparr> endog = ts_train, order = (best_p, best_d, best_q), seasonal_order = None,
                        enforce_stationarity = False, enforce_invertibility = False,
                        trend = ''ct'', start_params = [0, 0, 0, 1],
                        simple_differencing = False \<rparr>))
         (\<lambda>bestmodel. preturn (bestmodel, best_d))))))))"

subsection \<open>\<^verbatim>\<open>fit\<close>: fitting the chosen model (lines 107 to 113)\<close>

text \<open>
  The bare \<^verbatim>\<open>except\<close> catches whatever \<^verbatim>\<open>bestmodel.fit()\<close> or the evaluation of
  the metric attribute raises, and returns from \<^verbatim>\<open>fit\<close> at once. The early return is
  the left summand.
\<close>

definition fit_bestmodel ::
  "('m, 'r) env \<Rightarrow> 'r BuildSarimax \<Rightarrow> 'm \<Rightarrow> ('m, 'r, ('m, 'r) fit_result + 'r) prog" where
  "fit_bestmodel env s bestmodel =
     pbind (print (BOLD env @ ''Fitting best SARIMAX model for full data set'' @ END env) []) (\<lambda>_.
     try_except
       (pbind (call (Call_fit bestmodel) (model_fit env bestmodel)) (\<lambda>res.
        pbind (set_model res) (\<lambda>_.
        pbind (call (Call_eval_metric res (metric s)) (eval_metric env res (metric s))) (\<lambda>v.
        pbind (print ''    Best %s metric = %0.1f'' [PyStr (metric s), PyFloat v]) (\<lambda>_.
        preturn (Inr res))))))
       (\<lambda>e.
        pbind (print (''Error: Getting Singular Matrix. Please try using other PDQ parameters ''
                        @ ''or turn off Seasonality'') []) (\<lambda>_.
        preturn (Inl (Unfitted bestmodel, None, PosInf, PosInf)))))"

subsection \<open>\<^verbatim>\<open>fit\<close>: diagnostics and static forecasts (lines 115 to 133)\<close>

definition show_diagnostics :: "('m, 'r) env \<Rightarrow> 'r BuildSarimax \<Rightarrow> 'r \<Rightarrow> ('m, 'r, unit) prog" where
  "show_diagnostics env s res =
     pwhen (verbose s = 1)
       (try_except
          (call_unit (Call_plot_diagnostics res) (plot_diagnostics env res))
          (\<lambda>e. print ''Error: SARIMAX plot diagnostic. Continuing...'' []))"

text \<open>
  \<^verbatim>\<open>concatenated['original'].values\<close> and \<^verbatim>\<open>concatenated['predicted'].values\<close> are
  the two value columns of the joined frame.
\<close>

definition original :: "concat_frame \<Rightarrow> pyfloat list" where
  "original fr = map (\<lambda>(t, a, b). a) fr"

definition predicted :: "concat_frame \<Rightarrow> pyfloat list" where
  "predicted fr = map (\<lambda>(t, a, b). b) fr"

definition static_forecast ::
  "('m, 'r) env \<Rightarrow> 'r BuildSarimax \<Rightarrow> series \<Rightarrow> int \<Rightarrow> 'r \<Rightarrow> ('m, 'r, concat_frame) prog" where
  "static_forecast env s ts_train best_d res =
     (let y_truth = slice_from 0 ts_train in
      pbind (call (Call_predict res) (model_predict env res)) (\<lambda>y_forecasted.
      pbind (call (Call_concat y_truth y_forecasted) (pd_concat env y_truth y_forecasted))
        (\<lambda>concatenated.
      pbind (pwhen (verbose s = 1)
               (pbind (print ''Static Forecasts:'' []) (\<lambda>_.
                call_unit
                  (Call_print_static_rmse (slice_from best_d (original concatenated))
                     (slice_from best_d (predicted concatenated)) (verbose s))
                  (print_static_rmse env (slice_from best_d (original concatenated))
                     (slice_from best_d (predicted concatenated)) (verbose s))))) (\<lambda>_.
      preturn concatenated))))"

subsection \<open>\<^verbatim>\<open>fit\<close>: the plot of the dynamic forecast (lines 143 to 158)\<close>

text \<open>
  The axes object \<^verbatim>\<open>ax\<close> that \<^verbatim>\<open>plot\<close> returns, and the limits \<^verbatim>\<open>ax.get_ylim()\<close>
  reads from it, stay inside the plotting library; \<^verbatim>\<open>predicted_mean\<close> and
  \<^verbatim>\<open>conf_int()\<close> are read from the prediction object. Only the two \<^verbatim>\<open>fill\<close> calls
  are guarded.
\<close>

definition plot_dynamic ::
  "('m, 'r) env \<Rightarrow> 'r BuildSarimax \<Rightarrow> series \<Rightarrow> series \<Rightarrow> int \<Rightarrow> 'r \<Rightarrow> concat_frame
     \<Rightarrow> ('m, 'r, unit) prog" where
  "plot_dynamic env s ts_df' ts_train best_d res concatenated =
     pwhen (verbose s = 1)
       (pbind (call_unit (Call_plt (Frame_plot (slice_from best_d concatenated)))
                 (plt env (Frame_plot (slice_from best_d concatenated)))) (\<lambda>_.
        pbind (plift (getitem (map fst ts_df') (- forecast_period s - 1))) (\<lambda>startdate.
        pbind (call (Call_get_prediction res startdate) (get_prediction env res startdate))
          (\<lambda>pred_dynamic.
        let pred_dynamic_ci = conf_int pred_dynamic in
        pbind (call_unit (Call_plt (Mean_plot (predicted_mean pred_dynamic)))
                 (plt env (Mean_plot (predicted_mean pred_dynamic)))) (\<lambda>_.
        pbind (try_except
                 (pbind (call_unit
                           (Call_plt (Fill_between (map fst pred_dynamic_ci)
                              (map (\<lambda>(t, lo, hi). lo) pred_dynamic_ci)
                              (map (\<lambda>(t, lo, hi). hi) pred_dynamic_ci)))
                           (plt env (Fill_between (map fst pred_dynamic_ci)
                              (map (\<lambda>(t, lo, hi). lo) pred_dynamic_ci)
                              (map (\<lambda>(t, lo, hi). hi) pred_dynamic_ci)))) (\<lambda>_.
                  pbind (plift (getitem (map fst ts_train) (- 1))) (\<lambda>last_train.
                  call_unit (Call_plt (Fill_betweenx startdate last_train))
                    (plt env (Fill_betweenx startdate last_train)))))
                 (\<lambda>e. preturn ())) (\<lambda>_.
        pbind (call_unit (Call_plt (Set_xlabel ''Date'')) (plt env (Set_xlabel ''Date''))) (\<lambda>_.
        pbind (call_unit (Call_plt (Set_ylabel ''Levels'')) (plt env (Set_ylabel ''Levels''))) (\<lambda>_.
        pbind (call_unit (Call_plt Legend) (plt env Legend)) (\<lambda>_.
        call_unit (Call_plt Show) (plt env Show))))))))))"

subsection \<open>\<^verbatim>\<open>fit\<close>: the dynamic forecast and its errors (lines 160 to 168)\<close>

definition dynamic_forecast ::
  "('m, 'r) env \<Rightarrow> 'r BuildSarimax \<Rightarrow> series \<Rightarrow> series \<Rightarrow> 'r \<Rightarrow> ('m, 'r, ('m, 'r) fit_result) prog"
  where
  "dynamic_forecast env s ts_train ts_test res =
     pbind (call (Call_get_forecast res (forecast_period s))
              (get_forecast env res (forecast_period s))) (\<lambda>res2.
     pbind (call (Call_summary_frame res2) (summary_frame env res2)) (\<lambda>res2_df.
     pbind (predict env None) (\<lambda>y_forecasted.
     pbind (pwhen (verbose s = 1)
              (pbind (call (Call_summary res) (summary env res)) (\<lambda>txt. print txt []))) (\<lambda>_.
     pbind (print ''Dynamic %d-Period Forecast:'' [PyInt (forecast_period s)]) (\<lambda>_.
     pbind (call (Call_print_dynamic_rmse ts_test y_forecasted ts_train)
              (print_dynamic_rmse env ts_test y_forecasted ts_train)) (\<lambda>(rmse, norm_rmse).
     preturn (Fitted res, Some res2_df, rmse, norm_rmse)))))))"

subsection \<open>\<^verbatim>\<open>fit\<close> (lines 30 to 168)\<close>

text \<open>
  The split of lines 35 and 36 is \<^verbatim>\<open>ts_df[:-self.forecast_period]\<close>
  (\<open>train_of\<close>) and \<^verbatim>\<open>ts_df[-self.forecast_period:]\<close> (\<open>test_of\<close>). After line 109 \<^verbatim>\<open>self.model\<close> is the fitted
  result \<^verbatim>\<open>res\<close>, which nothing assigns again.
\<close>

definition choose_model ::
  "('m, 'r) env \<Rightarrow> 'r BuildSarimax \<Rightarrow> series \<Rightarrow> ('m, 'r, 'm \<times> int) prog" where
  "choose_model env s ts_train =
     (if \<not> seasonality s then nonseasonal_model env s ts_train
      else seasonal_model env s ts_train)"

definition evaluate_fitted ::
  "('m, 'r) env \<Rightarrow> 'r BuildSarimax \<Rightarrow> series \<Rightarrow> series \<Rightarrow> series \<Rightarrow> int \<Rightarrow> 'r
     \<Rightarrow> ('m, 'r, ('m, 'r) fit_result) prog" where
  "evaluate_fitted env s ts_df' ts_train ts_test best_d res =
     pbind (show_diagnostics env s res) (\<lambda>_.
     pbind (static_forecast env s ts_train best_d res) (\<lambda>concatenated.
     pbind (plot_dynamic env s ts_df' ts_train best_d res concatenated) (\<lambda>_.
     dynamic_forecast env s ts_train ts_test res)))"

definition fit_and_evaluate ::
  "('m, 'r) env \<Rightarrow> 'r BuildSarimax \<Rightarrow> series \<Rightarrow> series \<Rightarrow> series \<Rightarrow> 'm \<Rightarrow> int
     \<Rightarrow> ('m, 'r, ('m, 'r) fit_result) prog" where
  "fit_and_evaluate env s ts_df' ts_train ts_test bestmodel best_d =
     pbind (fit_bestmodel env s bestmodel) (\<lambda>fitted.
     case fitted of
       Inl sentinel \<Rightarrow> preturn sentinel
     | Inr res \<Rightarrow> evaluate_fitted env s ts_df' ts_train ts_test best_d res)"

definition announce_split :: "'r BuildSarimax \<Rightarrow> series \<Rightarrow> series \<Rightarrow> ('m, 'r, unit) prog" where
  "announce_split s ts_train ts_test =
     pwhen (verbose s = 1)
       (print ''Data Set split into train %s and test %s for Cross Validation Purposes''
          [PyShape (length ts_train), PyShape (length ts_test)])"

definition train_of :: "int \<Rightarrow> 'a list \<Rightarrow> 'a list" where
  "train_of fp df = slice_to (- fp) df"

definition test_of :: "int \<Rightarrow> 'a list \<Rightarrow> 'a list" where
  "test_of fp df = slice_from (- fp) df"

definition fit :: "('m, 'r) env \<Rightarrow> ('m, 'r, ('m, 'r) fit_result) prog" where
  "fit env =
     pbind pget (\<lambda>w.
     let s = self w;
         ts_train = train_of (forecast_period s) (ts_df w);
         ts_test = test_of (forecast_period s) (ts_df w) in
     pbind (announce_split s ts_train ts_test) (\<lambda>_.
     pbind (choose_model env s ts_train) (\<lambda>(bestmodel, best_d).
     fit_and_evaluate env s (ts_df w) ts_train ts_test bestmodel best_d)))"

section \<open>Reading the record of calls\<close>

text \<open>
  The three constructor calls of \<^verbatim>\<open>fit\<close> differ only in the series, the order and
  the seasonal order they pass; this is their common shape.
\<close>

definition model_args ::
  "series \<Rightarrow> int \<times> int \<times> int \<Rightarrow> (int \<times> int \<times> int \<times> int option) option \<Rightarrow> sarimax_args" where
  "model_args tr pdq so =
     \<lparr> endog = tr, order = pdq, seasonal_order = so,
       enforce_stationarity = False, enforce_invertibility = False,
       trend = ''ct'', start_params = [0, 0, 0, 1], simple_differencing = False \<rparr>"

fun is_search :: "('m, 'r) event \<Rightarrow> bool" where
  "is_search (Call_find_best_pdq_or_PDQ ts m p d q pdq sp seasonal v) = True"
| "is_search _ = False"

fun is_SARIMAX :: "('m, 'r) event \<Rightarrow> bool" where
  "is_SARIMAX (Call_SARIMAX a) = True"
| "is_SARIMAX _ = False"

fun is_fit :: "('m, 'r) event \<Rightarrow> bool" where
  "is_fit (Call_fit m) = True"
| "is_fit _ = False"

fun is_static_rmse :: "('m, 'r) event \<Rightarrow> bool" where
  "is_static_rmse (Call_print_static_rmse a b v) = True"
| "is_static_rmse _ = False"

fun is_dynamic_rmse :: "('m, 'r) event \<Rightarrow> bool" where
  "is_dynamic_rmse (Call_print_dynamic_rmse te fc tr) = True"
| "is_dynamic_rmse _ = False"

text \<open>The calls that choose the order and build and fit the model.\<close>

definition is_selection :: "('m, 'r) event \<Rightarrow> bool" where
  "is_selection e = (is_search e \<or> is_SARIMAX e \<or> is_fit e)"

text \<open>
  A statement \<^emph>\<open>emits\<close> \<open>Q\<close> when it only appends calls that satisfy \<open>Q\<close> to the
  record; it \<^emph>\<open>preserves\<close> \<open>f\<close> when \<open>f\<close> reads the same from the world before and
  after.
\<close>

definition emits :: "(('m, 'r) event \<Rightarrow> bool) \<Rightarrow> ('m, 'r, 'a) prog \<Rightarrow> bool" where
  "emits Q m = (\<forall>w. \<exists>evs. out (fst (m w)) = out w @ evs \<and> list_all Q evs)"

definition preserves :: "(('m, 'r) world \<Rightarrow> 'b) \<Rightarrow> ('m, 'r, 'a) prog \<Rightarrow> bool" where
  "preserves f m = (\<forall>w. f (fst (m w)) = f w)"

text \<open>
  Two worlds \<^emph>\<open>agree\<close> when \<^verbatim>\<open>self.model\<close> and \<^verbatim>\<open>self.forecast_period\<close> are the
  same in both. A statement is \<^emph>\<open>blind\<close> when, from two worlds that agree, it makes
  the same calls, ends the same way and leaves worlds that agree. A statement \<open>m\<close> is
  \<^emph>\<open>followed by\<close> \<open>m'\<close> when, from two worlds that agree, whatever \<open>m\<close> returns \<open>m'\<close>
  returns too, leaving worlds that agree.
\<close>

definition agree :: "('m, 'r) world \<Rightarrow> ('m, 'r) world \<Rightarrow> bool" where
  "agree w1 w2 =
     (model (self w1) = model (self w2) \<and> forecast_period (self w1) = forecast_period (self w2))"

definition blind :: "('m, 'r, 'a) prog \<Rightarrow> bool" where
  "blind m =
     (\<forall>w1 w2. agree w1 w2 \<longrightarrow>
        snd (m w1) = snd (m w2) \<and> agree (fst (m w1)) (fst (m w2)) \<and>
        (\<exists>evs. out (fst (m w1)) = out w1 @ evs \<and> out (fst (m w2)) = out w2 @ evs))"

definition followed_by :: "('m, 'r, 'a) prog \<Rightarrow> ('m, 'r, 'a) prog \<Rightarrow> bool" where
  "followed_by m m' =
     (\<forall>w1 w2 x. agree w1 w2 \<longrightarrow> snd (m w1) = Inr x \<longrightarrow>
        snd (m' w2) = Inr x \<and> agree (fst (m w1)) (fst (m' w2)))"


section \<open>A naive estimator for running the model\<close>

text \<open>
  To run \<^verbatim>\<open>fit\<close> on concrete series the collaborators are instantiated with a naive
  estimator: the search returns fixed orders and confirms seasonality only at period 12,
  a model object is its own constructor arguments, the in-sample prediction repeats the
  series, and the forecast repeats the last training value at the following timestamps
  (the value 0 from timestamp 1 on when there is no training value).
\<close>

definition naive_env :: "(sarimax_args, sarimax_args) env" where
  "naive_env =
     \<lparr> BOLD = ''<b>'', END = ''</b>'',
       find_best_pdq_or_PDQ = (\<lambda>ts m p d q pdq sp seasonal v.
          if seasonal then Inr (0, 1, 1, Fin 8, sp = Some 12) else Inr (1, 1, 0, Fin 10, False)),
       SARIMAX = Inr,
       model_fit = Inr,
       eval_metric = (\<lambda>r m. Inr (Fin 10)),
       plot_diagnostics = (\<lambda>r. None),
       model_predict = (\<lambda>r. Inr (endog r)),
       pd_concat = (\<lambda>a b. Inr (map2 (\<lambda>(t, x) (u, y). (t, Fin x, Fin y)) a b)),
       print_static_rmse = (\<lambda>a b v. None),
       get_prediction = (\<lambda>r t. Inr \<lparr> predicted_mean = [], conf_int = [] \<rparr>),
       plt = (\<lambda>c. None),
       get_forecast = (\<lambda>r n. Inr \<lparr> predicted_mean = [], conf_int = [] \<rparr>),
       summary_frame = (\<lambda>p. Inr []),
       forecast = (\<lambda>r n. Inr (map (\<lambda>i. (fst (last ((0, 0) # endog r)) + int i,
                                       snd (last ((0, 0) # endog r)))) [1..<Suc (nat n)])),
       summary = (\<lambda>r. Inr ''SARIMAX Results''),
       print_dynamic_rmse = (\<lambda>te fc tr. Inr (Fin (real (length te)), Fin 1)) \<rparr>"

text \<open>The same estimator when the final fit fails, and when no plot can be drawn.\<close>

definition failing_env :: "(sarimax_args, sarimax_args) env" where
  "failing_env = naive_env\<lparr>model_fit := (\<lambda>m. Inl LinAlgError)\<rparr>"

definition headless_env :: "(sarimax_args, sarimax_args) env" where
  "headless_env =
     naive_env\<lparr>plot_diagnostics := (\<lambda>r. Some RuntimeError), plt := (\<lambda>c. Some RuntimeError)\<rparr>"

definition demo_series :: series where
  "demo_series = [(1, 10), (2, 11), (3, 12), (4, 13), (5, 14)]"

definition demo_world :: "(sarimax_args, sarimax_args) world" where
  "demo_world = \<lparr> self = init ''bic'' False None 2 1 2 2 0, ts_df = demo_series, out = [] \<rparr>"

definition demo_args :: sarimax_args where
  "demo_args =
     \<lparr> endog = [(1, 10), (2, 11), (3, 12)], order = (1, 1, 0), seasonal_order = None,
       enforce_stationarity = False, enforce_invertibility = False,
       trend = ''ct'', start_params = [0, 0, 0, 1], simple_differencing = False \<rparr>"

definition seasonal_world :: "(sarimax_args, sarimax_args) world" where
  "seasonal_world =
     \<lparr> self = init ''bic'' True (Some 12) 2 1 2 2 1, ts_df = demo_series, out = [] \<rparr>"

definition seasonal_args :: sarimax_args where
  "seasonal_args =
     \<lparr> endog = [(1, 10), (2, 11), (3, 12)], order = (1, 1, 0),
       seasonal_order = Some (0, 1, 1, Some 12),
       enforce_stationarity = False, enforce_invertibility = False,
       trend = ''ct'', start_params = [0, 0, 0, 1], simple_differencing = False \<rparr>"

definition short_world :: "(sarimax_args, sarimax_args) world" where
  "short_world = \<lparr> self = init ''bic'' False None 2 1 2 2 0, ts_df = [(1, 10)], out = [] \<rparr>"

definition unconfirmed_world :: "(sarimax_args, sarimax_args) world" where
  "unconfirmed_world =
     \<lparr> self = init ''bic'' True (Some 7) 2 1 2 2 0, ts_df = demo_series, out = [] \<rparr>"

definition other_series :: series where
  "other_series = [(1, 10), (2, 11), (3, 12), (4, 99), (5, - 7)]"

definition verbose_world :: "(sarimax_args, sarimax_args) world" where
  "verbose_world = \<lparr> self = init ''bic'' False None 2 1 2 2 1, ts_df = demo_series, out = [] \<rparr>"




lemmas prog_defs = preturn_def praise_def pbind_def try_except_def pwhen_def emit_def call_def
  call_unit_def print_def set_model_def get_model_def pget_def plift_def

section \<open>Auxiliary facts\<close>

subsection \<open>Statements that emit\<close>

lemma emits_preturn: "emits Q (preturn x)" by (simp add: emits_def preturn_def)
lemma emits_praise: "emits Q (praise e)" by (simp add: emits_def praise_def)
lemma emits_pget: "emits Q pget" by (simp add: emits_def pget_def)
lemma emits_plift: "emits Q (plift r)" by (simp add: emits_def plift_def)
lemma emits_get_model: "emits Q get_model" by (simp add: emits_def get_model_def)
lemma emits_set_model: "emits Q (set_model r)" by (simp add: emits_def set_model_def)
lemma emits_emit: "Q ev \<Longrightarrow> emits Q (emit ev)" by (simp add: emits_def emit_def)
lemma emits_call: "Q ev \<Longrightarrow> emits Q (call ev r)" by (simp add: emits_def call_def)
lemma emits_call_unit: "Q ev \<Longrightarrow> emits Q (call_unit ev r)" by (simp add: call_unit_def emits_call)
lemma emits_print: "Q (Print fmt args) \<Longrightarrow> emits Q (print fmt args)" by (simp add: print_def emits_emit)

lemma emits_pbind:
  assumes "emits Q m" and "\<And>x. emits Q (f x)"
  shows "emits Q (pbind m f)"
  unfolding emits_def
proof
  fix w
  obtain evs where m: "out (fst (m w)) = out w @ evs" "list_all Q evs"
    using assms(1) unfolding emits_def by blast
  show "\<exists>evs. out (fst (pbind m f w)) = out w @ evs \<and> list_all Q evs"
  proof (cases "m w")
    case (Pair w' r)
    show ?thesis
    proof (cases r)
      case (Inl e)
      with Pair m show ?thesis by (auto simp: pbind_def)
    next
      case (Inr x)
      obtain evs' where f: "out (fst (f x w')) = out w' @ evs'" "list_all Q evs'"
        using assms(2)[of x] unfolding emits_def by blast
      from Pair Inr m f have "out (fst (pbind m f w)) = out w @ (evs @ evs')"
        by (simp add: pbind_def)
      moreover have "list_all Q (evs @ evs')" using m f by simp
      ultimately show ?thesis by blast
    qed
  qed
qed

lemma emits_try_except:
  assumes "emits Q m" and "\<And>e. emits Q (h e)"
  shows "emits Q (try_except m h)"
  unfolding emits_def
proof
  fix w
  obtain evs where m: "out (fst (m w)) = out w @ evs" "list_all Q evs"
    using assms(1) unfolding emits_def by blast
  show "\<exists>evs. out (fst (try_except m h w)) = out w @ evs \<and> list_all Q evs"
  proof (cases "m w")
    case (Pair w' r)
    show ?thesis
    proof (cases r)
      case (Inr x)
      with Pair m show ?thesis by (auto simp: try_except_def)
    next
      case (Inl e)
      obtain evs' where f: "out (fst (h e w')) = out w' @ evs'" "list_all Q evs'"
        using assms(2)[of e] unfolding emits_def by blast
      from Pair Inl m f have "out (fst (try_except m h w)) = out w @ (evs @ evs')"
        by (simp add: try_except_def)
      moreover have "list_all Q (evs @ evs')" using m f by simp
      ultimately show ?thesis by blast
    qed
  qed
qed

lemma emits_pwhen: "emits Q m \<Longrightarrow> emits Q (pwhen b m)"
  by (simp add: pwhen_def emits_preturn)
lemma emits_if: "(b \<Longrightarrow> emits Q m1) \<Longrightarrow> (\<not> b \<Longrightarrow> emits Q m2) \<Longrightarrow> emits Q (if b then m1 else m2)"
  by simp
lemma emits_case_prod: "(\<And>a b. emits Q (f a b)) \<Longrightarrow> emits Q (case_prod f p)"
  by (cases p) simp
lemma emits_case_option: "emits Q m1 \<Longrightarrow> (\<And>x. emits Q (f x)) \<Longrightarrow> emits Q (case_option m1 f x)"
  by (cases x) simp_all
lemma emits_case_sum: "(\<And>x. emits Q (f x)) \<Longrightarrow> (\<And>x. emits Q (g x)) \<Longrightarrow> emits Q (case_sum f g x)"
  by (cases x) simp_all

lemmas emits_intros = emits_preturn emits_praise emits_pget emits_plift emits_get_model
  emits_set_model emits_emit emits_call emits_call_unit emits_print emits_pbind emits_try_except
  emits_pwhen emits_if emits_case_prod emits_case_option emits_case_sum


lemma emits_mem: "emits Q m \<Longrightarrow> ev \<in> set (out (fst (m w))) \<Longrightarrow> ev \<in> set (out w) \<or> Q ev"
  unfolding emits_def list_all_iff by (metis Un_iff set_append)

lemma emits_filter:
  "emits (\<lambda>e. \<not> P e) m \<Longrightarrow> filter P (out (fst (m w))) = filter P (out w)"
proof -
  assume "emits (\<lambda>e. \<not> P e) m"
  then obtain evs where "out (fst (m w)) = out w @ evs" "list_all (\<lambda>e. \<not> P e) evs"
    unfolding emits_def by blast
  then show ?thesis by (simp add: list_all_iff)
qed

subsection \<open>Statements that preserve\<close>

lemma preserves_preturn: "preserves f (preturn x)" by (simp add: preserves_def preturn_def)
lemma preserves_praise: "preserves f (praise e)" by (simp add: preserves_def praise_def)
lemma preserves_pget: "preserves f pget" by (simp add: preserves_def pget_def)
lemma preserves_plift: "preserves f (plift r)" by (simp add: preserves_def plift_def)
lemma preserves_get_model: "preserves f get_model" by (simp add: preserves_def get_model_def)
lemma preserves_call: "(\<And>w evs. f (w\<lparr>out := evs\<rparr>) = f w) \<Longrightarrow> preserves f (call ev r)"
  by (simp add: preserves_def call_def)
lemma preserves_call_unit: "(\<And>w evs. f (w\<lparr>out := evs\<rparr>) = f w) \<Longrightarrow> preserves f (call_unit ev r)"
  by (simp add: call_unit_def preserves_call)
lemma preserves_print: "(\<And>w evs. f (w\<lparr>out := evs\<rparr>) = f w) \<Longrightarrow> preserves f (print fmt args)"
  by (simp add: preserves_def print_def emit_def)
lemma preserves_set_model:
  "(\<And>w r. f (w\<lparr>self := (self w)\<lparr>model := Some r\<rparr>\<rparr>) = f w) \<Longrightarrow> preserves f (set_model res)"
  by (simp add: preserves_def set_model_def)

lemma preserves_pbind:
  assumes "preserves f m" and "\<And>x. preserves f (g x)"
  shows "preserves f (pbind m g)"
  unfolding preserves_def
proof
  fix w
  show "f (fst (pbind m g w)) = f w"
  proof (cases "m w")
    case (Pair w' r)
    then have w': "f w' = f w" using assms(1) unfolding preserves_def by (metis fst_conv)
    show ?thesis
    proof (cases r)
      case (Inl e)
      with Pair w' show ?thesis by (simp add: pbind_def)
    next
      case (Inr x)
      have "f (fst (g x w')) = f w'" using assms(2)[of x] unfolding preserves_def by blast
      with Pair Inr w' show ?thesis by (simp add: pbind_def)
    qed
  qed
qed

lemma preserves_try_except:
  assumes "preserves f m" and "\<And>e. preserves f (h e)"
  shows "preserves f (try_except m h)"
  unfolding preserves_def
proof
  fix w
  show "f (fst (try_except m h w)) = f w"
  proof (cases "m w")
    case (Pair w' r)
    then have w': "f w' = f w" using assms(1) unfolding preserves_def by (metis fst_conv)
    show ?thesis
    proof (cases r)
      case (Inr x)
      with Pair w' show ?thesis by (simp add: try_except_def)
    next
      case (Inl e)
      have "f (fst (h e w')) = f w'" using assms(2)[of e] unfolding preserves_def by blast
      with Pair Inl w' show ?thesis by (simp add: try_except_def)
    qed
  qed
qed

lemma preserves_pwhen: "preserves f m \<Longrightarrow> preserves f (pwhen b m)"
  by (simp add: pwhen_def preserves_preturn)
lemma preserves_if:
  "(b \<Longrightarrow> preserves f m1) \<Longrightarrow> (\<not> b \<Longrightarrow> preserves f m2) \<Longrightarrow> preserves f (if b then m1 else m2)"
  by simp
lemma preserves_case_prod: "(\<And>a b. preserves f (g a b)) \<Longrightarrow> preserves f (case_prod g p)"
  by (cases p) simp
lemma preserves_case_option:
  "preserves f m1 \<Longrightarrow> (\<And>x. preserves f (g x)) \<Longrightarrow> preserves f (case_option m1 g x)"
  by (cases x) simp_all
lemma preserves_case_sum:
  "(\<And>x. preserves f (g x)) \<Longrightarrow> (\<And>x. preserves f (h x)) \<Longrightarrow> preserves f (case_sum g h x)"
  by (cases x) simp_all

lemmas preserves_intros = preserves_preturn preserves_praise preserves_pget preserves_plift
  preserves_get_model preserves_call preserves_call_unit preserves_print preserves_set_model
  preserves_pbind preserves_try_except preserves_pwhen preserves_if preserves_case_prod
  preserves_case_option preserves_case_sum

lemmas block_defs = announce_split_def choose_model_def nonseasonal_model_def seasonal_model_def
  fit_bestmodel_def show_diagnostics_def static_forecast_def plot_dynamic_def
  dynamic_forecast_def predict_def self_model_forecast_def evaluate_fitted_def
  fit_and_evaluate_def

lemma preserves_ts_df_fit: "preserves ts_df (fit env)"
  unfolding fit_def block_defs Let_def
  by (intro preserves_intros; simp)


subsection \<open>Blind statements\<close>

lemma agree_refl: "agree w w" by (simp add: agree_def)
lemma agree_out: "agree (w1\<lparr>out := a\<rparr>) (w2\<lparr>out := b\<rparr>) = agree w1 w2" by (simp add: agree_def)

lemma blind_preturn: "blind (preturn x)" by (simp add: blind_def preturn_def)
lemma blind_praise: "blind (praise e)" by (simp add: blind_def praise_def)
lemma blind_plift: "blind (plift r)" by (simp add: blind_def plift_def)
lemma blind_get_model: "blind get_model" by (simp add: blind_def get_model_def agree_def)
lemma blind_set_model: "blind (set_model r)" by (simp add: blind_def set_model_def agree_def)
lemma blind_call: "blind (call ev r)" by (simp add: blind_def call_def agree_def)
lemma blind_call_unit: "blind (call_unit ev r)" by (simp add: call_unit_def blind_call)
lemma blind_print: "blind (print fmt args)" by (simp add: blind_def print_def emit_def agree_def)

lemma blind_pbind:
  assumes "blind m" and "\<And>x. blind (f x)"
  shows "blind (pbind m f)"
  unfolding blind_def
proof (intro allI impI)
  fix w1 w2 :: "('a, 'b) world"
  assume a: "agree w1 w2"
  obtain evs where m: "snd (m w1) = snd (m w2)" "agree (fst (m w1)) (fst (m w2))"
      "out (fst (m w1)) = out w1 @ evs" "out (fst (m w2)) = out w2 @ evs"
    using assms(1) a unfolding blind_def by blast
  obtain v1 r1 v2 r2 where p: "m w1 = (v1, r1)" "m w2 = (v2, r2)"
    by (metis surj_pair)
  with m have r: "r2 = r1" and v: "agree v1 v2" and o: "out v1 = out w1 @ evs" "out v2 = out w2 @ evs"
    by simp_all
  show "snd (pbind m f w1) = snd (pbind m f w2) \<and> agree (fst (pbind m f w1)) (fst (pbind m f w2)) \<and>
        (\<exists>evs. out (fst (pbind m f w1)) = out w1 @ evs \<and> out (fst (pbind m f w2)) = out w2 @ evs)"
  proof (cases r1)
    case (Inl e)
    with p r v o show ?thesis by (simp add: pbind_def)
  next
    case (Inr x)
    obtain evs' where f: "snd (f x v1) = snd (f x v2)" "agree (fst (f x v1)) (fst (f x v2))"
        "out (fst (f x v1)) = out v1 @ evs'" "out (fst (f x v2)) = out v2 @ evs'"
      using assms(2)[of x] v unfolding blind_def by blast
    from p r Inr have e: "pbind m f w1 = f x v1" "pbind m f w2 = f x v2"
      by (simp_all add: pbind_def)
    from f o have "out (fst (f x v1)) = out w1 @ (evs @ evs')" "out (fst (f x v2)) = out w2 @ (evs @ evs')"
      by simp_all
    with e f show ?thesis by metis
  qed
qed

lemma blind_try_except:
  assumes "blind m" and "\<And>e. blind (h e)"
  shows "blind (try_except m h)"
  unfolding blind_def
proof (intro allI impI)
  fix w1 w2 :: "('a, 'b) world"
  assume a: "agree w1 w2"
  obtain evs where m: "snd (m w1) = snd (m w2)" "agree (fst (m w1)) (fst (m w2))"
      "out (fst (m w1)) = out w1 @ evs" "out (fst (m w2)) = out w2 @ evs"
    using assms(1) a unfolding blind_def by blast
  obtain v1 r1 v2 r2 where p: "m w1 = (v1, r1)" "m w2 = (v2, r2)"
    by (metis surj_pair)
  with m have r: "r2 = r1" and v: "agree v1 v2" and o: "out v1 = out w1 @ evs" "out v2 = out w2 @ evs"
    by simp_all
  show "snd (try_except m h w1) = snd (try_except m h w2) \<and>
        agree (fst (try_except m h w1)) (fst (try_except m h w2)) \<and>
        (\<exists>evs. out (fst (try_except m h w1)) = out w1 @ evs \<and>
               out (fst (try_except m h w2)) = out w2 @ evs)"
  proof (cases r1)
    case (Inr x)
    with p r v o show ?thesis by (simp add: try_except_def)
  next
    case (Inl e)
    obtain evs' where f: "snd (h e v1) = snd (h e v2)" "agree (fst (h e v1)) (fst (h e v2))"
        "out (fst (h e v1)) = out v1 @ evs'" "out (fst (h e v2)) = out v2 @ evs'"
      using assms(2)[of e] v unfolding blind_def by blast
    from p r Inl have e: "try_except m h w1 = h e v1" "try_except m h w2 = h e v2"
      by (simp_all add: try_except_def)
    from f o have "out (fst (h e v1)) = out w1 @ (evs @ evs')" "out (fst (h e v2)) = out w2 @ (evs @ evs')"
      by simp_all
    with e f show ?thesis by metis
  qed
qed

lemma blind_pwhen: "blind m \<Longrightarrow> blind (pwhen b m)"
  by (simp add: pwhen_def blind_preturn)
lemma blind_if: "(b \<Longrightarrow> blind m1) \<Longrightarrow> (\<not> b \<Longrightarrow> blind m2) \<Longrightarrow> blind (if b then m1 else m2)"
  by simp
lemma blind_case_prod: "(\<And>a b. blind (g a b)) \<Longrightarrow> blind (case_prod g p)"
  by (cases p) simp
lemma blind_case_option: "blind m1 \<Longrightarrow> (\<And>x. blind (g x)) \<Longrightarrow> blind (case_option m1 g x)"
  by (cases x) simp_all
lemma blind_case_sum: "(\<And>x. blind (g x)) \<Longrightarrow> (\<And>x. blind (h x)) \<Longrightarrow> blind (case_sum g h x)"
  by (cases x) simp_all

lemma blind_self_model_forecast: "blind (self_model_forecast env n)"
  unfolding self_model_forecast_def
  by (intro blind_pbind blind_get_model blind_case_option blind_praise blind_call)

lemma blind_predict: "blind (predict env fp)"
proof (cases fp)
  case (Some n)
  then show ?thesis by (simp add: predict_def blind_self_model_forecast)
next
  case None
  have "blind (\<lambda>w. self_model_forecast env (forecast_period (self w)) w)"
    unfolding blind_def
  proof (intro allI impI)
    fix w1 w2 :: "('a, 'b) world"
    assume a: "agree w1 w2"
    then have "forecast_period (self w1) = forecast_period (self w2)" by (simp add: agree_def)
    then show "snd (self_model_forecast env (forecast_period (self w1)) w1) =
          snd (self_model_forecast env (forecast_period (self w2)) w2) \<and>
          agree (fst (self_model_forecast env (forecast_period (self w1)) w1))
            (fst (self_model_forecast env (forecast_period (self w2)) w2)) \<and>
          (\<exists>evs. out (fst (self_model_forecast env (forecast_period (self w1)) w1)) = out w1 @ evs \<and>
             out (fst (self_model_forecast env (forecast_period (self w2)) w2)) = out w2 @ evs)"
      using blind_self_model_forecast[of env "forecast_period (self w2)"] a
      unfolding blind_def by simp
  qed
  moreover have "predict env None = (\<lambda>w. self_model_forecast env (forecast_period (self w)) w)"
    by (rule ext) (simp add: predict_def pbind_def pget_def)
  ultimately show ?thesis using None by simp
qed

lemmas blind_intros = blind_preturn blind_praise blind_plift blind_get_model blind_set_model
  blind_call blind_call_unit blind_print blind_pbind blind_try_except blind_pwhen blind_if
  blind_case_prod blind_case_option blind_case_sum blind_predict

lemmas tail_defs = fit_bestmodel_def show_diagnostics_def static_forecast_def plot_dynamic_def
  dynamic_forecast_def evaluate_fitted_def fit_and_evaluate_def

lemma blind_choose_model: "blind (choose_model env s tr)"
  unfolding choose_model_def nonseasonal_model_def seasonal_model_def
  by (intro blind_intros)

lemma blind_fit_and_evaluate: "blind (fit_and_evaluate env s df tr te bm d)"
  unfolding tail_defs Let_def
  by (intro blind_intros)


subsection \<open>The shape of \<^verbatim>\<open>fit\<close>\<close>

lemma fit_eq:
  "fit env w =
     pbind (choose_model env (self w) (train_of (forecast_period (self w)) (ts_df w)))
       (\<lambda>(bestmodel, best_d).
          fit_and_evaluate env (self w) (ts_df w) (train_of (forecast_period (self w)) (ts_df w))
            (test_of (forecast_period (self w)) (ts_df w)) bestmodel best_d)
       (fst (announce_split (self w) (train_of (forecast_period (self w)) (ts_df w))
          (test_of (forecast_period (self w)) (ts_df w)) w))"
  by (simp add: fit_def pbind_def pget_def Let_def announce_split_def pwhen_def print_def
      emit_def preturn_def)

lemma announce_split_self: "self (fst (announce_split s a b w)) = self w"
  by (simp add: announce_split_def pwhen_def print_def emit_def preturn_def)

lemma announce_split_ts_df: "ts_df (fst (announce_split s a b w)) = ts_df w"
  by (simp add: announce_split_def pwhen_def print_def emit_def preturn_def)

lemma emits_announce_split: "(\<And>fmt args. Q (Print fmt args)) \<Longrightarrow> emits Q (announce_split s a b)"
  unfolding announce_split_def by (intro emits_intros)

lemma fit_bestmodel_fails:
  "model_fit env bm = Inl e \<Longrightarrow>
   fit_bestmodel env s bm w =
     (w\<lparr>out := out w @
         [Print (BOLD env @ ''Fitting best SARIMAX model for full data set'' @ END env) [],
          Call_fit bm,
          Print (''Error: Getting Singular Matrix. Please try using other PDQ parameters ''
                   @ ''or turn off Seasonality'') []]\<rparr>,
      Inr (Inl (Unfitted bm, None, PosInf, PosInf)))"
  by (simp add: fit_bestmodel_def prog_defs)

lemma fit_bestmodel_model:
  "model (self (fst (fit_bestmodel env s bm w))) =
     (case model_fit env bm of Inl e \<Rightarrow> model (self w) | Inr res \<Rightarrow> Some res)"
  by (simp add: fit_bestmodel_def prog_defs split: sum.splits)

lemma fit_bestmodel_Inr:
  "fit_bestmodel env s bm w = (w', Inr (Inr res)) \<Longrightarrow>
     model_fit env bm = Inr res \<and> model (self w') = Some res
     \<and> forecast_period (self w') = forecast_period (self w)"
  by (auto simp add: fit_bestmodel_def prog_defs split: sum.splits)

lemma fit_bestmodel_never_raises: "\<exists>x. snd (fit_bestmodel env s bm w) = Inr x"
  by (simp add: fit_bestmodel_def prog_defs split: sum.splits)

lemma emits_no_fit_choose_model: "emits (\<lambda>e. \<not> is_fit e) (choose_model env s tr)"
  unfolding choose_model_def nonseasonal_model_def seasonal_model_def
  by (intro emits_intros; simp)

lemma emits_one_fit_tail:
  "emits (\<lambda>e. is_fit e \<longrightarrow> e = Call_fit bm) (fit_and_evaluate env s df tr te bm d)"
  unfolding tail_defs predict_def self_model_forecast_def Let_def
  by (intro emits_intros; simp)

lemma preserves_model_choose_model: "preserves (\<lambda>w. model (self w)) (choose_model env s tr)"
  unfolding choose_model_def nonseasonal_model_def seasonal_model_def
  by (intro preserves_intros; simp)

lemma preserves_model_announce_split: "preserves (\<lambda>w. model (self w)) (announce_split s a b)"
  unfolding announce_split_def
  by (intro preserves_intros; simp)

lemma preservesD: "preserves f m \<Longrightarrow> f (fst (m w)) = f w"
  by (simp add: preserves_def)

subsection \<open>What the model selection returns\<close>

lemma emits_weaken: "emits Q m \<Longrightarrow> (\<And>e. Q e \<Longrightarrow> Q' e) \<Longrightarrow> emits Q' m"
  unfolding emits_def list_all_iff by metis

lemma emits_call_pbind:
  assumes "Q ev" and "\<And>x. r = Inr x \<Longrightarrow> emits Q (f x)"
  shows "emits Q (pbind (call ev r) f)"
proof (cases r)
  case (Inl e)
  with assms(1) show ?thesis by (simp add: emits_def pbind_def call_def)
next
  case (Inr x)
  from assms(2)[OF Inr] have f: "emits Q (f x)" .
  show ?thesis unfolding emits_def
  proof
    fix w
    obtain evs where "out (fst (f x (w\<lparr>out := out w @ [ev]\<rparr>))) = (out w @ [ev]) @ evs"
        "list_all Q evs"
      using f unfolding emits_def by (metis (no_types, lifting) world.select_convs(3) world.surjective world.update_convs(3))
    with Inr assms(1) show "\<exists>evs. out (fst (pbind (call ev r) f w)) = out w @ evs \<and> list_all Q evs"
      by (intro exI[of _ "ev # evs"]) (simp add: pbind_def call_def)
  qed
qed

lemma emits_case_prod_eq: "(\<And>a b. p = (a, b) \<Longrightarrow> emits Q (f a b)) \<Longrightarrow> emits Q (case_prod f p)"
  by (cases p) simp

lemma emits_sarimax_choose_model:
  "emits (\<lambda>e. \<forall>a. e = Call_SARIMAX a \<longrightarrow>
       \<not> simple_differencing a \<and> endog a = tr
       \<and> (\<exists>bic f. find_best_pdq_or_PDQ env tr (metric s) (p_max s) (d_max s) (q_max s)
              None None False (verbose s)
            = Inr (fst (order a), fst (snd (order a)), snd (snd (order a)), bic, f))
       \<and> (\<forall>P D Q sp. seasonal_order a = Some (P, D, Q, sp) \<longrightarrow>
            sp = seasonal_period s
            \<and> (\<exists>bic. find_best_pdq_or_PDQ env tr (metric s) (p_max s) (d_max s) (q_max s)
                  (Some (order a)) (seasonal_period s) True (verbose s)
                = Inr (P, D, Q, bic, True))))
     (choose_model env s tr)"
  unfolding choose_model_def nonseasonal_model_def seasonal_model_def
  by (intro emits_if emits_call_pbind emits_case_prod_eq emits_pbind emits_print emits_preturn
        emits_praise emits_case_option; simp)

lemma emits_no_sarimax_tail:
  "emits (\<lambda>e. \<not> is_SARIMAX e) (fit_and_evaluate env s df tr te bm d)"
  unfolding tail_defs predict_def self_model_forecast_def Let_def
  by (intro emits_intros; simp)

lemma emits_pbind_mem:
  assumes "emits Q m" and "\<And>x. emits Q (f x)" and "ev \<in> set (out (fst (pbind m f w)))"
  shows "ev \<in> set (out w) \<or> Q ev"
  using emits_mem[OF emits_pbind[of Q m f], OF assms(1) assms(2) assms(3)] .

lemma nonseasonal_model_Inr:
  assumes "nonseasonal_model env s tr w = (w', Inr (bm, d))"
  shows "\<exists>p q bic f.
     find_best_pdq_or_PDQ env tr (metric s) (p_max s) (d_max s) (q_max s) None None False
       (verbose s) = Inr (p, d, q, bic, f)
     \<and> SARIMAX env (model_args tr (p, d, q) None) = Inr bm
     \<and> filter is_selection (out w') = filter is_selection (out w) @
         [Call_find_best_pdq_or_PDQ tr (metric s) (p_max s) (d_max s) (q_max s) None None False
            (verbose s),
          Call_SARIMAX (model_args tr (p, d, q) None)]"
  using assms
  by (auto simp add: nonseasonal_model_def prog_defs is_selection_def model_args_def
      split: sum.splits prod.splits)

lemma seasonal_model_Inr_case:
  assumes "seasonal_model env s tr w = (w', Inr (bm, d))"
  shows "case find_best_pdq_or_PDQ env tr (metric s) (p_max s) (d_max s) (q_max s) None None
            False (verbose s) of
      Inl e \<Rightarrow> False
    | Inr (p, d', q, bic, f) \<Rightarrow> d' = d \<and>
       (case find_best_pdq_or_PDQ env tr (metric s) (p_max s) (d_max s) (q_max s)
               (Some (p, d', q)) (seasonal_period s) True (verbose s) of
          Inl e \<Rightarrow> False
        | Inr (P, D, Q, bic', confirmed) \<Rightarrow>
            SARIMAX env (model_args tr (p, d', q)
               (if confirmed then Some (P, D, Q, seasonal_period s) else None)) = Inr bm
            \<and> filter is_selection (out w') = filter is_selection (out w) @
               [Call_find_best_pdq_or_PDQ tr (metric s) (p_max s) (d_max s) (q_max s) None None
                  False (verbose s),
                Call_find_best_pdq_or_PDQ tr (metric s) (p_max s) (d_max s) (q_max s)
                  (Some (p, d', q)) (seasonal_period s) True (verbose s),
                Call_SARIMAX (model_args tr (p, d', q)
                  (if confirmed then Some (P, D, Q, seasonal_period s) else None))])"
  using assms
  by (auto simp add: seasonal_model_def prog_defs is_selection_def model_args_def
      split: sum.splits prod.splits if_splits option.splits)

lemma seasonal_model_Inr:
  assumes "seasonal_model env s tr w = (w', Inr (bm, d))"
  shows "\<exists>p q bic f P D Q bic' confirmed.
     find_best_pdq_or_PDQ env tr (metric s) (p_max s) (d_max s) (q_max s) None None False
       (verbose s) = Inr (p, d, q, bic, f)
     \<and> find_best_pdq_or_PDQ env tr (metric s) (p_max s) (d_max s) (q_max s) (Some (p, d, q))
         (seasonal_period s) True (verbose s) = Inr (P, D, Q, bic', confirmed)
     \<and> SARIMAX env (model_args tr (p, d, q)
          (if confirmed then Some (P, D, Q, seasonal_period s) else None)) = Inr bm
     \<and> filter is_selection (out w') = filter is_selection (out w) @
         [Call_find_best_pdq_or_PDQ tr (metric s) (p_max s) (d_max s) (q_max s) None None False
            (verbose s),
          Call_find_best_pdq_or_PDQ tr (metric s) (p_max s) (d_max s) (q_max s) (Some (p, d, q))
            (seasonal_period s) True (verbose s),
          Call_SARIMAX (model_args tr (p, d, q)
            (if confirmed then Some (P, D, Q, seasonal_period s) else None))]"
proof -
  from seasonal_model_Inr_case[OF assms]
  obtain p q bic f where r1:
    "find_best_pdq_or_PDQ env tr (metric s) (p_max s) (d_max s) (q_max s) None None False
       (verbose s) = Inr (p, d, q, bic, f)"
    and rest: "case find_best_pdq_or_PDQ env tr (metric s) (p_max s) (d_max s) (q_max s)
               (Some (p, d, q)) (seasonal_period s) True (verbose s) of
          Inl e \<Rightarrow> False
        | Inr (P, D, Q, bic', confirmed) \<Rightarrow>
            SARIMAX env (model_args tr (p, d, q)
               (if confirmed then Some (P, D, Q, seasonal_period s) else None)) = Inr bm
            \<and> filter is_selection (out w') = filter is_selection (out w) @
               [Call_find_best_pdq_or_PDQ tr (metric s) (p_max s) (d_max s) (q_max s) None None
                  False (verbose s),
                Call_find_best_pdq_or_PDQ tr (metric s) (p_max s) (d_max s) (q_max s)
                  (Some (p, d, q)) (seasonal_period s) True (verbose s),
                Call_SARIMAX (model_args tr (p, d, q)
                  (if confirmed then Some (P, D, Q, seasonal_period s) else None))]"
    by (cases "find_best_pdq_or_PDQ env tr (metric s) (p_max s) (d_max s) (q_max s) None None
            False (verbose s)") auto
  from rest obtain P D Q bic' confirmed where r2:
    "find_best_pdq_or_PDQ env tr (metric s) (p_max s) (d_max s) (q_max s) (Some (p, d, q))
         (seasonal_period s) True (verbose s) = Inr (P, D, Q, bic', confirmed)"
    and r3: "SARIMAX env (model_args tr (p, d, q)
               (if confirmed then Some (P, D, Q, seasonal_period s) else None)) = Inr bm"
    and r4: "filter is_selection (out w') = filter is_selection (out w) @
               [Call_find_best_pdq_or_PDQ tr (metric s) (p_max s) (d_max s) (q_max s) None None
                  False (verbose s),
                Call_find_best_pdq_or_PDQ tr (metric s) (p_max s) (d_max s) (q_max s)
                  (Some (p, d, q)) (seasonal_period s) True (verbose s),
                Call_SARIMAX (model_args tr (p, d, q)
                  (if confirmed then Some (P, D, Q, seasonal_period s) else None))]"
    by (cases "find_best_pdq_or_PDQ env tr (metric s) (p_max s) (d_max s) (q_max s)
         (Some (p, d, q)) (seasonal_period s) True (verbose s)") auto
  from r1 r2 r3 r4 show ?thesis by blast
qed

lemma announce_split_selection:
  "filter is_selection (out (fst (announce_split s a b w))) = filter is_selection (out w)"
  by (simp add: announce_split_def pwhen_def print_def emit_def preturn_def is_selection_def)

lemma fit_bestmodel_selection:
  "filter is_selection (out (fst (fit_bestmodel env s bm w)))
     = filter is_selection (out w) @ [Call_fit bm]"
  by (simp add: fit_bestmodel_def prog_defs is_selection_def split: sum.splits)

lemma emits_no_selection_evaluate_fitted:
  "emits (\<lambda>e. \<not> is_selection e) (evaluate_fitted env s df tr te d res)"
  unfolding tail_defs predict_def self_model_forecast_def Let_def
  by (intro emits_intros; simp add: is_selection_def)

lemma tail_selection:
  "filter is_selection (out (fst (fit_and_evaluate env s df tr te bm d w)))
     = filter is_selection (out w) @ [Call_fit bm]"
proof -
  obtain w' r where f: "fit_bestmodel env s bm w = (w', r)" by (metis surj_pair)
  from fit_bestmodel_never_raises[of env s bm w] f obtain x where r: "r = Inr x" by auto
  have o: "filter is_selection (out w') = filter is_selection (out w) @ [Call_fit bm]"
    using fit_bestmodel_selection[of env s bm w] f by simp
  show ?thesis
  proof (cases x)
    case (Inl sentinel)
    with f r o show ?thesis by (simp add: fit_and_evaluate_def pbind_def preturn_def)
  next
    case (Inr res)
    with f r have "fit_and_evaluate env s df tr te bm d w = evaluate_fitted env s df tr te d res w'"
      by (simp add: fit_and_evaluate_def pbind_def)
    moreover have "filter is_selection (out (fst (evaluate_fitted env s df tr te d res w')))
        = filter is_selection (out w')"
      by (rule emits_filter[OF emits_no_selection_evaluate_fitted])
    ultimately show ?thesis using o by simp
  qed
qed

subsection \<open>The split and where its parts go\<close>

lemma slice_bound_neg: "0 < fp \<Longrightarrow> slice_bound (- fp) n = n - nat fp"
  by (auto simp add: slice_bound_def)

lemma train_of_pos: "0 < fp \<Longrightarrow> train_of fp xs = take (length xs - nat fp) xs"
  by (simp add: train_of_def slice_to_def slice_bound_neg)

lemma test_of_pos: "0 < fp \<Longrightarrow> test_of fp xs = drop (length xs - nat fp) xs"
  by (simp add: test_of_def slice_from_def slice_bound_neg)

lemma train_of_cong:
  assumes "length xs = length ys"
    and "take (nat (int (length xs) - fp)) xs = take (nat (int (length ys) - fp)) ys"
  shows "train_of fp xs = train_of fp ys"
proof -
  consider "0 < fp" | "fp = 0" | "fp < 0" by linarith
  then show ?thesis
  proof cases
    case 1
    then have "nat (int (length xs) - fp) = length xs - nat fp" by linarith
    with 1 assms show ?thesis by (simp add: train_of_pos)
  next
    case 2
    then show ?thesis by (simp add: train_of_def slice_to_def slice_bound_def)
  next
    case 3
    then have "length xs \<le> nat (int (length xs) - fp)" by linarith
    with assms have "xs = ys" by simp
    then show ?thesis by simp
  qed
qed

lemma pbind_print: "pbind (print fmt args) f w = f () (w\<lparr>out := out w @ [Print fmt args]\<rparr>)"
  by (simp add: pbind_def print_def emit_def)

lemma snd_pbind:
  "snd (pbind m f w) = (case snd (m w) of Inl e \<Rightarrow> Inl e | Inr x \<Rightarrow> snd (f x (fst (m w))))"
  by (simp add: pbind_def split: prod.splits sum.splits)

lemma emits_keeps: "emits Q m \<Longrightarrow> ev \<in> set (out w) \<Longrightarrow> ev \<in> set (out (fst (m w)))"
  unfolding emits_def by (metis Un_iff set_append)

lemma pbind_keeps:
  assumes "ev \<in> set (out (fst (m w)))" and "\<And>x. emits Q (f x)"
  shows "ev \<in> set (out (fst (pbind m f w)))"
proof (cases "m w")
  case (Pair w' r)
  show ?thesis
  proof (cases r)
    case (Inl e)
    with Pair assms(1) show ?thesis by (simp add: pbind_def)
  next
    case (Inr x)
    with Pair assms(1) emits_keeps[OF assms(2)[of x], of ev w'] show ?thesis
      by (simp add: pbind_def)
  qed
qed

lemma call_pbind_mem:
  assumes "\<And>x. emits Q (f x)"
  shows "ev \<in> set (out (fst (pbind (call ev r) f w)))"
  by (rule pbind_keeps[OF _ assms]) (simp add: call_def)

lemma choose_model_searches:
  "Call_find_best_pdq_or_PDQ tr (metric s) (p_max s) (d_max s) (q_max s) None None False
     (verbose s) \<in> set (out (fst (choose_model env s tr w)))"
proof (cases "seasonality s")
  case False
  then show ?thesis
    unfolding choose_model_def nonseasonal_model_def
    apply (simp add: pbind_print)
    apply (rule call_pbind_mem[where Q = "\<lambda>_. True"])
    apply (intro emits_intros; simp)
    done
next
  case True
  then show ?thesis
    unfolding choose_model_def seasonal_model_def
    apply (simp add: pbind_print)
    apply (rule call_pbind_mem[where Q = "\<lambda>_. True"])
    apply (intro emits_intros; simp)
    done
qed

lemma emits_any_tail: "emits (\<lambda>_. True) (fit_and_evaluate env s df tr te bm d)"
  unfolding tail_defs predict_def self_model_forecast_def Let_def
  by (intro emits_intros; simp)

lemma emits_no_dynamic_choose_model: "emits (\<lambda>e. \<not> is_dynamic_rmse e) (choose_model env s tr)"
  unfolding choose_model_def nonseasonal_model_def seasonal_model_def
  by (intro emits_intros; simp)

lemma emits_dynamic_tail:
  "emits (\<lambda>e. \<forall>a fc b. e = Call_print_dynamic_rmse a fc b \<longrightarrow> a = te \<and> b = tr)
     (fit_and_evaluate env s df tr te bm d)"
  unfolding tail_defs predict_def self_model_forecast_def Let_def
  by (intro emits_intros; simp)

lemma announce_split_mem:
  "ev \<in> set (out (fst (announce_split s a b w))) \<Longrightarrow> ev \<in> set (out w) \<or> (\<exists>fmt args. ev = Print fmt args)"
  by (auto simp add: announce_split_def pwhen_def print_def emit_def preturn_def split: if_splits)

subsection \<open>The seasonal branch without confirmation\<close>

lemma pbind_Inl: "snd (m w) = Inl e \<Longrightarrow> pbind m f w = (fst (m w), Inl e)"
  by (cases "m w") (simp add: pbind_def)

lemma pbind_Inr: "snd (m w) = Inr x \<Longrightarrow> pbind m f w = f x (fst (m w))"
  by (cases "m w") (simp add: pbind_def)

lemma blindD:
  assumes "blind m" and "agree w1 w2"
  obtains evs where "snd (m w1) = snd (m w2)" and "agree (fst (m w1)) (fst (m w2))"
    and "out (fst (m w1)) = out w1 @ evs" and "out (fst (m w2)) = out w2 @ evs"
  using assms unfolding blind_def by blast

lemma emits_filter_pbind:
  assumes "\<And>x. emits (\<lambda>e. \<not> P e) (f x)"
  shows "filter P (out (fst (pbind m f w))) = filter P (out (fst (m w)))"
proof (cases "snd (m w)")
  case (Inl e)
  then show ?thesis by (simp add: pbind_Inl)
next
  case (Inr x)
  then show ?thesis by (simp add: pbind_Inr emits_filter[OF assms])
qed

lemma announce_split_filter:
  "(\<And>fmt args. \<not> P (Print fmt args)) \<Longrightarrow>
   filter P (out (fst (announce_split s a b w))) = filter P (out w)"
  by (simp add: announce_split_def pwhen_def print_def emit_def preturn_def)

lemma announce_split_agree: "agree (fst (announce_split s a b w)) w"
  by (simp add: announce_split_def pwhen_def print_def emit_def preturn_def agree_def)

lemma evaluate_fitted_ignores_seasonality:
  "evaluate_fitted env (s\<lparr>seasonality := b\<rparr>) df tr te d res = evaluate_fitted env s df tr te d res"
  by (simp add: evaluate_fitted_def show_diagnostics_def static_forecast_def plot_dynamic_def
      dynamic_forecast_def)

lemma tail_ignores_seasonality:
  "fit_and_evaluate env (s\<lparr>seasonality := b\<rparr>) df tr te bm d = fit_and_evaluate env s df tr te bm d"
  by (simp add: fit_and_evaluate_def fit_bestmodel_def evaluate_fitted_ignores_seasonality
      cong: sum.case_cong)

lemma preserves_self_choose_model: "preserves self (choose_model env s tr)"
  unfolding choose_model_def nonseasonal_model_def seasonal_model_def
  by (intro preserves_intros; simp)

lemma choose_unconfirmed:
  assumes "seasonality s"
    and "find_best_pdq_or_PDQ env tr (metric s) (p_max s) (d_max s) (q_max s) None None False
           (verbose s) = Inr (p, d, q, bic, f)"
    and "find_best_pdq_or_PDQ env tr (metric s) (p_max s) (d_max s) (q_max s) (Some (p, d, q))
           (seasonal_period s) True (verbose s) = Inr (P, D, Q, bic', False)"
  shows "snd (choose_model env s tr w)
           = (case SARIMAX env (model_args tr (p, d, q) None) of
                Inl e \<Rightarrow> Inl e | Inr bm \<Rightarrow> Inr (bm, d))"
    and "filter is_SARIMAX (out (fst (choose_model env s tr w)))
           = filter is_SARIMAX (out w) @ [Call_SARIMAX (model_args tr (p, d, q) None)]"
  using assms
  by (simp_all add: choose_model_def seasonal_model_def prog_defs model_args_def
      split: sum.splits)

lemma choose_nonseasonal:
  assumes "\<not> seasonality s"
    and "find_best_pdq_or_PDQ env tr (metric s) (p_max s) (d_max s) (q_max s) None None False
           (verbose s) = Inr (p, d, q, bic, f)"
  shows "snd (choose_model env s tr w)
           = (case SARIMAX env (model_args tr (p, d, q) None) of
                Inl e \<Rightarrow> Inl e | Inr bm \<Rightarrow> Inr (bm, d))"
    and "filter is_SARIMAX (out (fst (choose_model env s tr w)))
           = filter is_SARIMAX (out w) @ [Call_SARIMAX (model_args tr (p, d, q) None)]"
  using assms
  by (simp_all add: choose_model_def nonseasonal_model_def prog_defs model_args_def
      split: sum.splits)

subsection \<open>What \<^verbatim>\<open>self.model\<close> is after the fit\<close>

lemma preserves_model_evaluate_fitted:
  "preserves (\<lambda>w. model (self w)) (evaluate_fitted env s df tr te d res)"
  unfolding tail_defs predict_def self_model_forecast_def Let_def
  by (intro preserves_intros; simp)

lemma tail_model:
  "model (self (fst (fit_and_evaluate env s df tr te bm d w)))
     = (case model_fit env bm of Inl e \<Rightarrow> model (self w) | Inr res \<Rightarrow> Some res)"
proof -
  obtain w' r where f: "fit_bestmodel env s bm w = (w', r)" by (metis surj_pair)
  from fit_bestmodel_never_raises[of env s bm w] f obtain x where r: "r = Inr x" by auto
  have m: "model (self w')
      = (case model_fit env bm of Inl e \<Rightarrow> model (self w) | Inr res \<Rightarrow> Some res)"
    using fit_bestmodel_model[of env s bm w] f by simp
  show ?thesis
  proof (cases x)
    case (Inl sentinel)
    with f r m show ?thesis by (simp add: fit_and_evaluate_def pbind_def preturn_def)
  next
    case (Inr res)
    with f r have "fit_and_evaluate env s df tr te bm d w = evaluate_fitted env s df tr te d res w'"
      by (simp add: fit_and_evaluate_def pbind_def)
    moreover have "model (self (fst (evaluate_fitted env s df tr te d res w'))) = model (self w')"
      by (rule preservesD[OF preserves_model_evaluate_fitted])
    ultimately show ?thesis using m by simp
  qed
qed

subsection \<open>What the evaluation of a fitted model returns\<close>

lemma slice_from_0: "slice_from 0 xs = xs"
  by (simp add: slice_from_def slice_bound_def)

lemma emits_filter2:
  assumes "emits (\<lambda>e. \<not> P e \<and> \<not> P' e) m"
  shows "filter P (out (fst (m w))) = filter P (out w)"
    and "filter P' (out (fst (m w))) = filter P' (out w)"
  by (rule emits_filter[OF emits_weaken[OF assms]]; simp)+

lemma emits_no_rmse_choose_model:
  "emits (\<lambda>e. \<not> is_static_rmse e \<and> \<not> is_dynamic_rmse e) (choose_model env s tr)"
  unfolding choose_model_def nonseasonal_model_def seasonal_model_def
  by (intro emits_intros; simp)

lemma emits_no_rmse_fit_bestmodel:
  "emits (\<lambda>e. \<not> is_static_rmse e \<and> \<not> is_dynamic_rmse e) (fit_bestmodel env s bm)"
  unfolding fit_bestmodel_def
  by (intro emits_intros; simp)

lemma emits_no_rmse_show_diagnostics:
  "emits (\<lambda>e. \<not> is_static_rmse e \<and> \<not> is_dynamic_rmse e) (show_diagnostics env s res)"
  unfolding show_diagnostics_def
  by (intro emits_intros; simp)

lemma emits_no_rmse_plot_dynamic:
  "emits (\<lambda>e. \<not> is_static_rmse e \<and> \<not> is_dynamic_rmse e)
     (plot_dynamic env s df tr d res conc)"
  unfolding plot_dynamic_def Let_def
  by (intro emits_intros; simp)

lemma preserves_self_show_diagnostics: "preserves self (show_diagnostics env s res)"
  unfolding show_diagnostics_def by (intro preserves_intros; simp)

lemma preserves_self_plot_dynamic: "preserves self (plot_dynamic env s df tr d res conc)"
  unfolding plot_dynamic_def Let_def by (intro preserves_intros; simp)

lemma preserves_self_static_forecast: "preserves self (static_forecast env s tr d res)"
  unfolding static_forecast_def Let_def by (intro preserves_intros; simp)

lemma preserves_self_announce_split: "preserves self (announce_split s a b)"
  unfolding announce_split_def by (intro preserves_intros; simp)

lemma choose_model_Inr:
  assumes "choose_model env s tr w = (w', Inr (bm, d))"
  shows "\<exists>p q bic f. find_best_pdq_or_PDQ env tr (metric s) (p_max s) (d_max s) (q_max s)
           None None False (verbose s) = Inr (p, d, q, bic, f)"
proof (cases "seasonality s")
  case True
  with assms have "seasonal_model env s tr w = (w', Inr (bm, d))"
    by (simp add: choose_model_def)
  from seasonal_model_Inr[OF this] show ?thesis by blast
next
  case False
  with assms have "nonseasonal_model env s tr w = (w', Inr (bm, d))"
    by (simp add: choose_model_def)
  from nonseasonal_model_Inr[OF this] show ?thesis by blast
qed

lemma static_forecast_Inr:
  assumes "static_forecast env s tr d res w = (w', Inr conc)"
  shows "\<exists>y. model_predict env res = Inr y \<and> pd_concat env tr y = Inr conc
     \<and> filter is_static_rmse (out w') = filter is_static_rmse (out w) @
         (if verbose s = 1
          then [Call_print_static_rmse (slice_from d (original conc))
                  (slice_from d (predicted conc)) (verbose s)]
          else [])
     \<and> filter is_dynamic_rmse (out w') = filter is_dynamic_rmse (out w)"
  using assms
  by (cases "verbose s = 1")
     (auto simp add: static_forecast_def prog_defs Let_def slice_from_0
        split: sum.splits option.splits)

lemma dynamic_forecast_Inr:
  assumes "dynamic_forecast env s tr te res w = (w', Inr r)"
    and "model (self w) = Some m"
  shows "\<exists>frame rmse nrmse fc. r = (Fitted res, Some frame, rmse, nrmse)
     \<and> forecast env m (forecast_period (self w)) = Inr fc
     \<and> print_dynamic_rmse env te fc tr = Inr (rmse, nrmse)
     \<and> filter is_dynamic_rmse (out w') = filter is_dynamic_rmse (out w) @
          [Call_print_dynamic_rmse te fc tr]
     \<and> filter is_static_rmse (out w') = filter is_static_rmse (out w)"
  using assms
  by (cases "verbose s = 1")
     (auto simp add: dynamic_forecast_def predict_def self_model_forecast_def prog_defs
        split: sum.splits option.splits prod.splits)

lemma evaluate_fitted_steps:
  assumes "evaluate_fitted env s df tr te d res w = (w', Inr r)"
  shows "\<exists>wa wb wc conc. show_diagnostics env s res w = (wa, Inr ())
     \<and> static_forecast env s tr d res wa = (wb, Inr conc)
     \<and> plot_dynamic env s df tr d res conc wb = (wc, Inr ())
     \<and> dynamic_forecast env s tr te res wc = (w', Inr r)"
  using assms unfolding evaluate_fitted_def
  by (auto simp add: pbind_def split: prod.splits sum.splits)


lemma fit_bestmodel_sentinel:
  "fit_bestmodel env s bm w = (w', Inr (Inl t)) \<Longrightarrow> t = (Unfitted bm, None, PosInf, PosInf)"
  by (auto simp add: fit_bestmodel_def prog_defs split: sum.splits)

lemma evaluate_fitted_Inr:
  fixes env :: "('m, 'r) env" and w :: "('m, 'r) world"
  assumes e: "evaluate_fitted env s df tr te d res w = (w', Inr r)"
    and m: "model (self w) = Some res"
  shows "\<exists>frame rmse nrmse y conc fc. r = (Fitted res, Some frame, rmse, nrmse)
     \<and> model_predict env res = Inr y \<and> pd_concat env tr y = Inr conc
     \<and> filter is_static_rmse (out w') = filter is_static_rmse (out w) @
         (if verbose s = 1
          then [Call_print_static_rmse (slice_from d (original conc))
                  (slice_from d (predicted conc)) (verbose s)]
          else [])
     \<and> forecast env res (forecast_period (self w)) = Inr fc
     \<and> print_dynamic_rmse env te fc tr = Inr (rmse, nrmse)
     \<and> filter is_dynamic_rmse (out w') = filter is_dynamic_rmse (out w) @
          [Call_print_dynamic_rmse te fc tr]"
proof -
  from evaluate_fitted_steps[OF e] obtain wa wb wc conc where
    a: "show_diagnostics env s res w = (wa, Inr ())"
    and b: "static_forecast env s tr d res wa = (wb, Inr conc)"
    and c: "plot_dynamic env s df tr d res conc wb = (wc, Inr ())"
    and dd: "dynamic_forecast env s tr te res wc = (w', Inr r)"
    by blast
  have sa: "self wa = self w"
    using preservesD[OF preserves_self_show_diagnostics, of env s res w] a by simp
  have fa: "filter is_static_rmse (out wa) = filter is_static_rmse (out w)"
    "filter is_dynamic_rmse (out wa) = filter is_dynamic_rmse (out w)"
    using emits_filter2[OF emits_no_rmse_show_diagnostics, of env s res w] a by simp_all
  from static_forecast_Inr[OF b] obtain y where
    y: "model_predict env res = Inr y" "pd_concat env tr y = Inr conc"
    and fb: "filter is_static_rmse (out wb) = filter is_static_rmse (out wa) @
         (if verbose s = 1
          then [Call_print_static_rmse (slice_from d (original conc))
                  (slice_from d (predicted conc)) (verbose s)]
          else [])"
      "filter is_dynamic_rmse (out wb) = filter is_dynamic_rmse (out wa)"
    by blast
  have sb: "self wb = self wa"
    using preservesD[OF preserves_self_static_forecast, of env s tr d res wa] b by simp
  have sc: "self wc = self wb"
    using preservesD[OF preserves_self_plot_dynamic, of env s df tr d res conc wb] c by simp
  have fc: "filter is_static_rmse (out wc) = filter is_static_rmse (out wb)"
    "filter is_dynamic_rmse (out wc) = filter is_dynamic_rmse (out wb)"
    using emits_filter2[OF emits_no_rmse_plot_dynamic, of env s df tr d res conc wb] c
    by simp_all
  have mc: "model (self wc) = Some res"
    using m sa sb sc by simp
  from dynamic_forecast_Inr[OF dd mc] obtain frame rmse nrmse fc' where
    r: "r = (Fitted res, Some frame, rmse, nrmse)"
    and f: "forecast env res (forecast_period (self wc)) = Inr fc'"
      "print_dynamic_rmse env te fc' tr = Inr (rmse, nrmse)"
    and fd: "filter is_dynamic_rmse (out w') = filter is_dynamic_rmse (out wc) @
          [Call_print_dynamic_rmse te fc' tr]"
      "filter is_static_rmse (out w') = filter is_static_rmse (out wc)"
    by blast
  have g1: "filter is_static_rmse (out w') = filter is_static_rmse (out w) @
         (if verbose s = 1
          then [Call_print_static_rmse (slice_from d (original conc))
                  (slice_from d (predicted conc)) (verbose s)]
          else [])"
    unfolding fd fc fb fa ..
  have g2: "filter is_dynamic_rmse (out w') = filter is_dynamic_rmse (out w) @
          [Call_print_dynamic_rmse te fc' tr]"
    unfolding fd fc fb fa ..
  have g3: "forecast env res (forecast_period (self w)) = Inr fc'"
    using f(1) sa sb sc by simp
  from r y g1 g2 g3 f(2) show ?thesis by blast
qed

subsection \<open>Runs that differ in \<^verbatim>\<open>verbose\<close>\<close>

lemma agree_self: "self w1 = self w2 \<Longrightarrow> agree w1 w2"
  by (simp add: agree_def)

lemma agree_sym: "agree w1 w2 \<Longrightarrow> agree w2 w1"
  by (simp add: agree_def)

lemma agree_trans: "agree w1 w2 \<Longrightarrow> agree w2 w3 \<Longrightarrow> agree w1 w3"
  by (simp add: agree_def)

lemma blind_fit_bestmodel: "blind (fit_bestmodel env s bm)"
  unfolding fit_bestmodel_def by (intro blind_intros)

lemma fit_bestmodel_ignores_verbose:
  "fit_bestmodel env (s\<lparr>verbose := v\<rparr>) bm = fit_bestmodel env s bm"
  by (simp add: fit_bestmodel_def)

lemma nonseasonal_model_ignores_verbose:
  assumes "\<forall>ts m p d q pdq sp b. find_best_pdq_or_PDQ env ts m p d q pdq sp b v
             = find_best_pdq_or_PDQ env ts m p d q pdq sp b (verbose s)"
  shows "snd (nonseasonal_model env (s\<lparr>verbose := v\<rparr>) tr w1) = snd (nonseasonal_model env s tr w2)"
  using assms
  by (simp add: nonseasonal_model_def prog_defs split: sum.splits prod.splits)

lemma seasonal_model_ignores_verbose:
  assumes "\<forall>ts m p d q pdq sp b. find_best_pdq_or_PDQ env ts m p d q pdq sp b v
             = find_best_pdq_or_PDQ env ts m p d q pdq sp b (verbose s)"
  shows "snd (seasonal_model env (s\<lparr>verbose := v\<rparr>) tr w1) = snd (seasonal_model env s tr w2)"
  using assms
  by (simp add: seasonal_model_def prog_defs split: sum.splits prod.splits option.splits)

lemma choose_model_ignores_verbose:
  assumes "\<forall>ts m p d q pdq sp b. find_best_pdq_or_PDQ env ts m p d q pdq sp b v
             = find_best_pdq_or_PDQ env ts m p d q pdq sp b (verbose s)"
  shows "snd (choose_model env (s\<lparr>verbose := v\<rparr>) tr w1) = snd (choose_model env s tr w2)"
  using nonseasonal_model_ignores_verbose[OF assms] seasonal_model_ignores_verbose[OF assms]
  by (simp add: choose_model_def)

lemma show_diagnostics_quiet:
  "verbose s \<noteq> 1 \<Longrightarrow> show_diagnostics env s res w = (w, Inr ())"
  by (simp add: show_diagnostics_def pwhen_def preturn_def)

lemma plot_dynamic_quiet:
  "verbose s \<noteq> 1 \<Longrightarrow> plot_dynamic env s df tr d res conc w = (w, Inr ())"
  by (simp add: plot_dynamic_def pwhen_def preturn_def)

lemma static_forecast_quiet:
  assumes "verbose s \<noteq> 1" and "model_predict env res = Inr y" and "pd_concat env tr y = Inr conc"
  shows "snd (static_forecast env s tr d res w) = Inr conc"
    and "self (fst (static_forecast env s tr d res w)) = self w"
  using assms
  by (simp_all add: static_forecast_def prog_defs Let_def slice_from_0)

lemma dynamic_forecast_quiet:
  assumes "dynamic_forecast env s tr te res w = (w', Inr r)"
    and "agree w w2" and "v \<noteq> 1"
  shows "snd (dynamic_forecast env (s\<lparr>verbose := v\<rparr>) tr te res w2) = Inr r"
    and "model (self (fst (dynamic_forecast env (s\<lparr>verbose := v\<rparr>) tr te res w2)))
           = model (self w2)"
  using assms
  by (auto simp add: dynamic_forecast_def predict_def self_model_forecast_def prog_defs agree_def
      split: sum.splits option.splits prod.splits if_splits)


lemma evaluate_fitted_quiet:
  fixes env :: "('m, 'r) env" and wv wq :: "('m, 'r) world"
  assumes e: "evaluate_fitted env s df tr te d res wv = (w', Inr r)"
    and v: "v \<noteq> 1" and ag: "agree wv wq"
  shows "snd (evaluate_fitted env (s\<lparr>verbose := v\<rparr>) df tr te d res wq) = Inr r"
proof -
  define s' where "s' = s\<lparr>verbose := v\<rparr>"
  have q: "verbose s' \<noteq> 1" using v by (simp add: s'_def)
  from evaluate_fitted_steps[OF e] obtain wa wb wc conc where
    a: "show_diagnostics env s res wv = (wa, Inr ())"
    and b: "static_forecast env s tr d res wa = (wb, Inr conc)"
    and c: "plot_dynamic env s df tr d res conc wb = (wc, Inr ())"
    and dd: "dynamic_forecast env s tr te res wc = (w', Inr r)"
    by blast
  from static_forecast_Inr[OF b] obtain y where
    y: "model_predict env res = Inr y" "pd_concat env tr y = Inr conc"
    by blast
  have sa: "self wa = self wv"
    using preservesD[OF preserves_self_show_diagnostics, of env s res wv] a by simp
  have sb: "self wb = self wa"
    using preservesD[OF preserves_self_static_forecast, of env s tr d res wa] b by simp
  have sc: "self wc = self wb"
    using preservesD[OF preserves_self_plot_dynamic, of env s df tr d res conc wb] c by simp
  define wq2 where "wq2 = fst (static_forecast env s' tr d res wq)"
  have st: "snd (static_forecast env s' tr d res wq) = Inr conc" and sq: "self wq2 = self wq"
    unfolding wq2_def by (rule static_forecast_quiet[OF q y])+
  have ag2: "agree wc wq2"
    using ag sa sb sc sq by (simp add: agree_def)
  have dq: "snd (dynamic_forecast env s' tr te res wq2) = Inr r"
    unfolding s'_def by (rule dynamic_forecast_quiet(1)[OF dd ag2 v])
  have "snd (evaluate_fitted env s' df tr te d res wq) = Inr r"
    by (simp add: evaluate_fitted_def snd_pbind show_diagnostics_quiet[OF q]
        plot_dynamic_quiet[OF q] st wq2_def[symmetric] dq)
  then show ?thesis by (simp add: s'_def)
qed

lemma tail_quiet:
  fixes env :: "('m, 'r) env" and wv wq :: "('m, 'r) world"
  assumes t: "snd (fit_and_evaluate env s df tr te bm d wv) = Inr r"
    and v: "v \<noteq> 1" and ag: "agree wv wq"
  shows "snd (fit_and_evaluate env (s\<lparr>verbose := v\<rparr>) df tr te bm d wq) = Inr r"
proof -
  from blindD[OF blind_fit_bestmodel ag, of env s bm]
  have same: "snd (fit_bestmodel env s bm wv) = snd (fit_bestmodel env s bm wq)"
    and ag3: "agree (fst (fit_bestmodel env s bm wv)) (fst (fit_bestmodel env s bm wq))"
    by blast+
  from fit_bestmodel_never_raises[of env s bm wv] obtain z where
    z: "snd (fit_bestmodel env s bm wv) = Inr z" by blast
  show ?thesis
  proof (cases z)
    case (Inl sentinel)
    with z t have "r = sentinel"
      by (simp add: fit_and_evaluate_def snd_pbind preturn_def)
    with Inl z same show ?thesis
      by (simp add: fit_and_evaluate_def snd_pbind preturn_def fit_bestmodel_ignores_verbose)
  next
    case (Inr res)
    with z have "fit_and_evaluate env s df tr te bm d wv
        = evaluate_fitted env s df tr te d res (fst (fit_bestmodel env s bm wv))"
      by (simp add: fit_and_evaluate_def pbind_Inr)
    with t have "evaluate_fitted env s df tr te d res (fst (fit_bestmodel env s bm wv))
        = (fst (fit_and_evaluate env s df tr te bm d wv), Inr r)"
      by (metis prod.collapse)
    from evaluate_fitted_quiet[OF this v ag3]
    have "snd (evaluate_fitted env (s\<lparr>verbose := v\<rparr>) df tr te d res
        (fst (fit_bestmodel env s bm wq))) = Inr r" .
    with Inr z same show ?thesis
      by (simp add: fit_and_evaluate_def snd_pbind fit_bestmodel_ignores_verbose)
  qed
qed

subsection \<open>The record of a seasonal selection\<close>


section \<open>The claims\<close>

lemmas run_defs = fit_def block_defs prog_defs naive_env_def failing_env_def headless_env_def
  demo_world_def demo_series_def demo_args_def init_def train_of_def test_of_def slice_to_def
  slice_from_def slice_bound_def getitem_def original_def predicted_def Let_def

text \<open>
  Claim C1, as the code has it. For a positive \<^verbatim>\<open>forecast_period\<close> the train part is
  the series without its last \<^verbatim>\<open>forecast_period\<close> rows and the test part is those last
  rows; a series no longer than \<^verbatim>\<open>forecast_period\<close> gives an empty train part and the
  whole series as test part. \<^verbatim>\<open>fit\<close> checks no length: it always calls the order
  search on the train part, and every dynamic RMSE it asks for is of the test part
  against the train part.
\<close>

theorem fit_splits_without_length_check:
  fixes env :: "('m, 'r) env" and w :: "('m, 'r) world"
  assumes "0 < forecast_period (self w)"
  shows "train_of (forecast_period (self w)) (ts_df w)
           = take (length (ts_df w) - nat (forecast_period (self w))) (ts_df w)
     \<and> test_of (forecast_period (self w)) (ts_df w)
           = drop (length (ts_df w) - nat (forecast_period (self w))) (ts_df w)
     \<and> Call_find_best_pdq_or_PDQ
          (take (length (ts_df w) - nat (forecast_period (self w))) (ts_df w))
          (metric (self w)) (p_max (self w)) (d_max (self w)) (q_max (self w)) None None False
          (verbose (self w)) \<in> set (out (fst (fit env w)))
     \<and> (\<forall>a fc b. Call_print_dynamic_rmse a fc b \<in> set (out (fst (fit env w))) \<longrightarrow>
           Call_print_dynamic_rmse a fc b \<in> set (out w)
           \<or> a = drop (length (ts_df w) - nat (forecast_period (self w))) (ts_df w)
             \<and> b = take (length (ts_df w) - nat (forecast_period (self w))) (ts_df w))"
proof -
  define s where "s = self w"
  define tr where "tr = train_of (forecast_period s) (ts_df w)"
  define te where "te = test_of (forecast_period s) (ts_df w)"
  define w1 where "w1 = fst (announce_split s tr te w)"
  have tr: "tr = take (length (ts_df w) - nat (forecast_period (self w))) (ts_df w)"
    unfolding tr_def s_def using assms by (rule train_of_pos)
  have te: "te = drop (length (ts_df w) - nat (forecast_period (self w))) (ts_df w)"
    unfolding te_def s_def using assms by (rule test_of_pos)
  have f: "fit env w = pbind (choose_model env s tr)
       (\<lambda>(bestmodel, best_d). fit_and_evaluate env s (ts_df w) tr te bestmodel best_d) w1"
    by (simp add: fit_eq w1_def s_def tr_def te_def)
  have any: "emits (\<lambda>_. True) (case x of (bestmodel, best_d) \<Rightarrow>
            fit_and_evaluate env s (ts_df w) tr te bestmodel best_d)" for x
    by (cases x) (simp add: emits_any_tail)
  have "Call_find_best_pdq_or_PDQ tr (metric s) (p_max s) (d_max s) (q_max s) None None False
          (verbose s) \<in> set (out (fst (fit env w)))"
    unfolding f by (rule pbind_keeps[OF choose_model_searches any])
  then have search: "Call_find_best_pdq_or_PDQ
          (take (length (ts_df w) - nat (forecast_period (self w))) (ts_df w))
          (metric (self w)) (p_max (self w)) (d_max (self w)) (q_max (self w)) None None False
          (verbose (self w)) \<in> set (out (fst (fit env w)))"
    unfolding tr[symmetric] s_def .
  define G where "G = (\<lambda>e :: ('m, 'r) event.
     \<forall>a fc b. e = Call_print_dynamic_rmse a fc b \<longrightarrow> a = te \<and> b = tr)"
  have c: "emits G (choose_model env s tr)"
    by (rule emits_weaken[OF emits_no_dynamic_choose_model]) (auto simp: G_def)
  have t: "emits G (case x of (bestmodel, best_d) \<Rightarrow>
            fit_and_evaluate env s (ts_df w) tr te bestmodel best_d)" for x
    unfolding G_def by (cases x) (simp add: emits_dynamic_tail)
  have dyn: "Call_print_dynamic_rmse a fc b \<in> set (out w) \<or> a = te \<and> b = tr"
    if m: "Call_print_dynamic_rmse a fc b \<in> set (out (fst (fit env w)))" for a fc b
  proof -
    have "Call_print_dynamic_rmse a fc b \<in> set (out w1) \<or> G (Call_print_dynamic_rmse a fc b)"
    proof (rule emits_pbind_mem[OF c])
      show "emits G (case x of (bestmodel, best_d) \<Rightarrow>
            fit_and_evaluate env s (ts_df w) tr te bestmodel best_d)" for x
        by (rule t)
      show "Call_print_dynamic_rmse a fc b \<in> set (out (fst (pbind (choose_model env s tr)
          (\<lambda>(bestmodel, best_d). fit_and_evaluate env s (ts_df w) tr te bestmodel best_d) w1)))"
        using m unfolding f .
    qed
    moreover have "Call_print_dynamic_rmse a fc b \<in> set (out w)"
      if "Call_print_dynamic_rmse a fc b \<in> set (out w1)"
      using announce_split_mem[of "Call_print_dynamic_rmse a fc b" s tr te w] that
      unfolding w1_def by auto
    ultimately show ?thesis by (auto simp: G_def)
  qed
  from tr te search dyn show ?thesis
    unfolding tr_def te_def s_def by blast
qed

theorem fit_splits_without_length_check_witness:
  "0 < forecast_period (self demo_world)
   \<and> train_of 2 demo_series = [(1, 10), (2, 11), (3, 12)]
   \<and> test_of 2 demo_series = [(4, 13), (5, 14)]
   \<and> Call_find_best_pdq_or_PDQ [(1, 10), (2, 11), (3, 12)] ''bic'' 2 1 2 None None False 0
        \<in> set (out (fst (fit naive_env demo_world)))
   \<and> Call_print_dynamic_rmse [(4, 13), (5, 14)] [(4, 12), (5, 12)] [(1, 10), (2, 11), (3, 12)]
        \<in> set (out (fst (fit naive_env demo_world)))"
proof -
  have h: "0 < forecast_period (self demo_world)"
    by (simp add: demo_world_def init_def)
  have e: "Call_print_dynamic_rmse [(4, 13), (5, 14)] [(4, 12), (5, 12)]
      [(1, 10), (2, 11), (3, 12)] \<in> set (out (fst (fit naive_env demo_world)))"
    by (simp add: run_defs upt_conv_Cons)
  have s: "self demo_world = init ''bic'' False None 2 1 2 2 0" "ts_df demo_world = demo_series"
    "out demo_world = []"
    by (simp_all add: demo_world_def)
  note t = fit_splits_without_length_check[OF h, of naive_env]
  from t[THEN conjunct2, THEN conjunct2, THEN conjunct2, rule_format, OF e]
  have d: "[(4, 13), (5, 14)]
             = drop (length (ts_df demo_world) - nat (forecast_period (self demo_world)))
                 (ts_df demo_world)
           \<and> [(1, 10), (2, 11), (3, 12)]
             = take (length (ts_df demo_world) - nat (forecast_period (self demo_world)))
                 (ts_df demo_world)"
    by (simp add: s)
  from t[THEN conjunct1] t[THEN conjunct2, THEN conjunct1]
    t[THEN conjunct2, THEN conjunct2, THEN conjunct1] d e h
  show ?thesis
    by (simp add: s init_def)
qed

text \<open>
  The claim as stated fails on a series of one row with \<^verbatim>\<open>forecast_period = 2\<close>:
  \<^verbatim>\<open>fit\<close> searches, constructs and fits on the empty train part and returns.
\<close>

theorem fit_short_series_proceeds:
  "length (ts_df short_world) \<le> nat (forecast_period (self short_world))
   \<and> snd (fit naive_env short_world)
       = Inr (Fitted (model_args [] (1, 1, 0) None), Some [], Fin 1, Fin 1)
   \<and> filter is_selection (out (fst (fit naive_env short_world))) =
       [Call_find_best_pdq_or_PDQ [] ''bic'' 2 1 2 None None False 0,
        Call_SARIMAX (model_args [] (1, 1, 0) None),
        Call_fit (model_args [] (1, 1, 0) None)]"
  by (simp add: run_defs short_world_def model_args_def is_selection_def upt_conv_Cons)

text \<open>
  Claim C2. When the run reaches \<^verbatim>\<open>bestmodel.fit()\<close> and that call raises, whatever the
  exception, \<^verbatim>\<open>fit\<close> does not propagate it: it returns the unfitted model object, no
  forecast frame, and infinity for both errors. \<^verbatim>\<open>self.model\<close> is left as it was.
\<close>

theorem fit_failed_estimation_returns_sentinel:
  fixes env :: "('m, 'r) env" and w :: "('m, 'r) world"
  assumes reached: "Call_fit bm \<in> set (out (fst (fit env w)))"
    and fresh: "Call_fit bm \<notin> set (out w)"
    and fails: "model_fit env bm = Inl e"
  shows "snd (fit env w) = Inr (Unfitted bm, None, PosInf, PosInf)
         \<and> model (self (fst (fit env w))) = model (self w)"
proof -
  define s where "s = self w"
  define tr where "tr = train_of (forecast_period s) (ts_df w)"
  define te where "te = test_of (forecast_period s) (ts_df w)"
  define w1 where "w1 = fst (announce_split s tr te w)"
  have "emits (\<lambda>e. \<not> is_fit e) (announce_split s tr te :: ('m, 'r, unit) prog)"
    by (rule emits_announce_split) simp
  from emits_mem[OF this, of "Call_fit bm" w]
  have "Call_fit bm \<in> set (out w1) \<Longrightarrow> Call_fit bm \<in> set (out w) \<or> \<not> is_fit (Call_fit bm)"
    unfolding w1_def by simp
  with fresh have w1: "Call_fit bm \<notin> set (out w1)" by auto
  have m1: "model (self w1) = model (self w)"
    unfolding w1_def using preservesD[OF preserves_model_announce_split] .
  obtain w2 r where c: "choose_model env s tr w1 = (w2, r)" by (metis surj_pair)
  have "emits (\<lambda>e. \<not> is_fit e) (choose_model env s tr)"
    by (rule emits_no_fit_choose_model)
  from emits_mem[OF this, of "Call_fit bm" w1]
  have "Call_fit bm \<in> set (out w2) \<Longrightarrow> Call_fit bm \<in> set (out w1) \<or> \<not> is_fit (Call_fit bm)"
    using c by simp
  with w1 have w2: "Call_fit bm \<notin> set (out w2)" by auto
  have "preserves (\<lambda>w. model (self w)) (choose_model env s tr)"
    by (rule preserves_model_choose_model)
  from preservesD[OF this, of w1] have m2: "model (self w2) = model (self w)"
    using c m1 by simp
  show ?thesis
  proof (cases r)
    case (Inl e')
    with c have "fit env w = (w2, Inl e')"
      by (simp add: fit_eq pbind_def w1_def s_def tr_def te_def)
    with reached w2 show ?thesis by simp
  next
    case (Inr p)
    obtain bm' d where p: "p = (bm', d)" by (cases p)
    with c Inr have f: "fit env w = fit_and_evaluate env s (ts_df w) tr te bm' d w2"
      by (simp add: fit_eq pbind_def w1_def s_def tr_def te_def)
    have "emits (\<lambda>e. is_fit e \<longrightarrow> e = Call_fit bm') (fit_and_evaluate env s (ts_df w) tr te bm' d)"
      by (rule emits_one_fit_tail)
    from emits_mem[OF this, of "Call_fit bm" w2]
    have "Call_fit bm \<in> set (out w2) \<or> (is_fit (Call_fit bm) \<longrightarrow> Call_fit bm = Call_fit bm')"
      using reached f by simp
    with w2 have "bm' = bm" by simp
    with f fit_bestmodel_fails[OF fails, of s w2] m2 show ?thesis
      by (simp add: fit_and_evaluate_def pbind_def preturn_def)
  qed
qed

theorem fit_failed_estimation_returns_sentinel_witness:
  "Call_fit demo_args \<in> set (out (fst (fit failing_env demo_world)))
   \<and> Call_fit demo_args \<notin> set (out demo_world)
   \<and> model_fit failing_env demo_args = Inl LinAlgError
   \<and> snd (fit failing_env demo_world) = Inr (Unfitted demo_args, None, PosInf, PosInf)
   \<and> model (self (fst (fit failing_env demo_world))) = None"
proof -
  have h1: "Call_fit demo_args \<in> set (out (fst (fit failing_env demo_world)))"
    by (simp add: run_defs)
  have h2: "Call_fit demo_args \<notin> set (out demo_world)"
    by (simp add: demo_world_def)
  have h3: "model_fit failing_env demo_args = Inl LinAlgError"
    by (simp add: failing_env_def naive_env_def)
  have h4: "model (self demo_world) = None"
    by (simp add: demo_world_def init_def)
  from fit_failed_estimation_returns_sentinel[OF h1 h2 h3] h1 h2 h3 h4 show ?thesis
    by simp
qed




text \<open>
  Claim C4, as the code has it. When \<^verbatim>\<open>fit\<close> returns a fitted model it has taken the
  in-sample predictions \<^verbatim>\<open>self.model.predict(dynamic=False)\<close> and joined them with the
  train part. Only when \<^verbatim>\<open>verbose\<close> is 1 has it asked \<^verbatim>\<open>print_static_rmse\<close> for the
  static RMSE, once, of the two value columns without their first \<open>d\<close> entries, \<open>d\<close>
  being the differencing order of the non-seasonal search alone; otherwise it has asked
  for no static RMSE. In either case it has asked \<^verbatim>\<open>print_dynamic_rmse\<close> once, for
  the test part against the forecast over \<^verbatim>\<open>forecast_period\<close> steps, and returns its
  two figures.
\<close>

theorem static_rmse_when_verbose_dynamic_rmse_always:
  fixes env :: "('m, 'r) env" and w :: "('m, 'r) world"
  assumes ret: "snd (fit env w) = Inr (Fitted res, frame, rmse, nrmse)"
  shows "\<exists>p d q bic f y conc fc.
       find_best_pdq_or_PDQ env (train_of (forecast_period (self w)) (ts_df w)) (metric (self w))
         (p_max (self w)) (d_max (self w)) (q_max (self w)) None None False (verbose (self w))
         = Inr (p, d, q, bic, f)
     \<and> model_predict env res = Inr y
     \<and> pd_concat env (train_of (forecast_period (self w)) (ts_df w)) y = Inr conc
     \<and> filter is_static_rmse (out (fst (fit env w))) = filter is_static_rmse (out w) @
         (if verbose (self w) = 1
          then [Call_print_static_rmse (slice_from d (original conc))
                  (slice_from d (predicted conc)) 1]
          else [])
     \<and> forecast env res (forecast_period (self w)) = Inr fc
     \<and> print_dynamic_rmse env (test_of (forecast_period (self w)) (ts_df w)) fc
          (train_of (forecast_period (self w)) (ts_df w)) = Inr (rmse, nrmse)
     \<and> filter is_dynamic_rmse (out (fst (fit env w))) = filter is_dynamic_rmse (out w) @
          [Call_print_dynamic_rmse (test_of (forecast_period (self w)) (ts_df w)) fc
             (train_of (forecast_period (self w)) (ts_df w))]"
proof -
  define s where "s = self w"
  define tr where "tr = train_of (forecast_period s) (ts_df w)"
  define te where "te = test_of (forecast_period s) (ts_df w)"
  define w1 where "w1 = fst (announce_split s tr te w)"
  have s1: "self w1 = s"
    unfolding w1_def s_def by (rule announce_split_self)
  have f1: "filter is_static_rmse (out w1) = filter is_static_rmse (out w)"
    "filter is_dynamic_rmse (out w1) = filter is_dynamic_rmse (out w)"
    unfolding w1_def by (simp_all add: announce_split_filter)
  have feq: "fit env w = pbind (choose_model env s tr)
       (\<lambda>(bestmodel, best_d). fit_and_evaluate env s (ts_df w) tr te bestmodel best_d) w1"
    by (simp add: fit_eq w1_def s_def tr_def te_def)
  obtain w2 r where c: "choose_model env s tr w1 = (w2, r)" by (metis surj_pair)
  have s2: "self w2 = s"
    using preservesD[OF preserves_self_choose_model, of env s tr w1] c s1 by simp
  have f2: "filter is_static_rmse (out w2) = filter is_static_rmse (out w)"
    "filter is_dynamic_rmse (out w2) = filter is_dynamic_rmse (out w)"
    using emits_filter2[OF emits_no_rmse_choose_model, of env s tr w1] c f1 by simp_all
  show ?thesis
  proof (cases r)
    case (Inl e)
    with c have "fit env w = (w2, Inl e)" unfolding feq by (simp add: pbind_def)
    with ret show ?thesis by simp
  next
    case (Inr x)
    obtain bm d where x: "x = (bm, d)" by (cases x)
    from choose_model_Inr[of env s tr w1 w2 bm d] c Inr x obtain p q bic f where
      search: "find_best_pdq_or_PDQ env tr (metric s) (p_max s) (d_max s) (q_max s)
           None None False (verbose s) = Inr (p, d, q, bic, f)"
      by auto
    from c Inr x have ft: "fit env w = fit_and_evaluate env s (ts_df w) tr te bm d w2"
      unfolding feq by (simp add: pbind_def)
    obtain w3 z0 where fb: "fit_bestmodel env s bm w2 = (w3, z0)" by (metis surj_pair)
    from fit_bestmodel_never_raises[of env s bm w2] fb obtain z where z: "z0 = Inr z" by auto
    have f3: "filter is_static_rmse (out w3) = filter is_static_rmse (out w)"
      "filter is_dynamic_rmse (out w3) = filter is_dynamic_rmse (out w)"
      using emits_filter2[OF emits_no_rmse_fit_bestmodel, of env s bm w2] fb f2 by simp_all
    show ?thesis
    proof (cases z)
      case (Inl t)
      with fb z have "t = (Unfitted bm, None, PosInf, PosInf)"
        using fit_bestmodel_sentinel[of env s bm w2 w3 t] by simp
      moreover from fb z Inl have "fit env w = (w3, Inr t)"
        unfolding ft by (simp add: fit_and_evaluate_def pbind_def preturn_def)
      ultimately show ?thesis using ret by simp
    next
      case (Inr res')
      from fit_bestmodel_Inr[of env s bm w2 w3 res'] fb z Inr
      have m3: "model (self w3) = Some res'"
        and p3: "forecast_period (self w3) = forecast_period s"
        using s2 by simp_all
      from fb z Inr have fe: "fit env w = evaluate_fitted env s (ts_df w) tr te d res' w3"
        unfolding ft by (simp add: fit_and_evaluate_def pbind_def)
      with ret have ev: "evaluate_fitted env s (ts_df w) tr te d res' w3
          = (fst (fit env w), Inr (Fitted res, frame, rmse, nrmse))"
        by (metis prod.collapse)
      from evaluate_fitted_Inr[OF ev m3] obtain frame' rmse' nrmse' y conc fc where
        r: "(Fitted res, frame, rmse, nrmse) = (Fitted res', Some frame', rmse', nrmse')"
        and y: "model_predict env res' = Inr y" "pd_concat env tr y = Inr conc"
        and g1: "filter is_static_rmse (out (fst (fit env w))) = filter is_static_rmse (out w3) @
         (if verbose s = 1
          then [Call_print_static_rmse (slice_from d (original conc))
                  (slice_from d (predicted conc)) (verbose s)]
          else [])"
        and g3: "forecast env res' (forecast_period (self w3)) = Inr fc"
        and g4: "print_dynamic_rmse env te fc tr = Inr (rmse', nrmse')"
        and g2: "filter is_dynamic_rmse (out (fst (fit env w))) = filter is_dynamic_rmse (out w3) @
          [Call_print_dynamic_rmse te fc tr]"
        by blast
      from r have e: "res' = res" "rmse' = rmse" "nrmse' = nrmse" by simp_all
      have h1: "filter is_static_rmse (out (fst (fit env w))) = filter is_static_rmse (out w) @
         (if verbose s = 1
          then [Call_print_static_rmse (slice_from d (original conc))
                  (slice_from d (predicted conc)) 1]
          else [])"
        using g1 f3 by simp
      have h2: "filter is_dynamic_rmse (out (fst (fit env w))) = filter is_dynamic_rmse (out w) @
          [Call_print_dynamic_rmse te fc tr]"
        using g2 f3 by simp
      have h3: "forecast env res (forecast_period s) = Inr fc"
        using g3 p3 e by simp
      have h4: "print_dynamic_rmse env te fc tr = Inr (rmse, nrmse)"
        using g4 e by simp
      have h5: "model_predict env res = Inr y" using y e by simp
      from search h5 y(2) h1 h3 h4 h2 show ?thesis
        unfolding s_def[symmetric] tr_def[symmetric] te_def[symmetric] by blast
    qed
  qed
qed

theorem static_rmse_when_verbose_dynamic_rmse_always_witness:
  "snd (fit naive_env seasonal_world) = Inr (Fitted seasonal_args, Some [], Fin 2, Fin 1)
   \<and> verbose (self seasonal_world) = 1
   \<and> filter is_static_rmse (out (fst (fit naive_env seasonal_world)))
       = [Call_print_static_rmse [Fin 11, Fin 12] [Fin 11, Fin 12] 1]
   \<and> filter is_dynamic_rmse (out (fst (fit naive_env seasonal_world)))
       = [Call_print_dynamic_rmse [(4, 13), (5, 14)] [(4, 12), (5, 12)]
            [(1, 10), (2, 11), (3, 12)]]"
proof -
  have h: "snd (fit naive_env seasonal_world) = Inr (Fitted seasonal_args, Some [], Fin 2, Fin 1)"
    by (simp add: run_defs seasonal_world_def seasonal_args_def)
  have s: "self seasonal_world = init ''bic'' True (Some 12) 2 1 2 2 1"
    "ts_df seasonal_world = demo_series" "out seasonal_world = []"
    by (simp_all add: seasonal_world_def)
  from static_rmse_when_verbose_dynamic_rmse_always[OF h] h show ?thesis
    by (auto simp add: s init_def naive_env_def seasonal_args_def demo_series_def train_of_def
        test_of_def slice_to_def slice_from_def slice_bound_def original_def predicted_def
        upt_conv_Cons)
qed

text \<open>
  The claim as stated fails twice. With a seasonal order \<open>(0, 1, 1, 12)\<close> beside the order
  \<open>(1, 1, 0)\<close> and \<^verbatim>\<open>verbose = 1\<close>, one point is dropped, not \<open>d + D = 2\<close>; and with
  \<^verbatim>\<open>verbose = 0\<close> a fitted model is returned without any static RMSE.
\<close>

theorem static_rmse_drops_d_and_needs_verbose:
  "snd (fit naive_env seasonal_world) = Inr (Fitted seasonal_args, Some [], Fin 2, Fin 1)
   \<and> order seasonal_args = (1, 1, 0)
   \<and> seasonal_order seasonal_args = Some (0, 1, 1, Some 12)
   \<and> filter is_static_rmse (out (fst (fit naive_env seasonal_world)))
       = [Call_print_static_rmse [Fin 11, Fin 12] [Fin 11, Fin 12] 1]
   \<and> snd (fit naive_env demo_world) = Inr (Fitted demo_args, Some [], Fin 2, Fin 1)
   \<and> filter is_static_rmse (out (fst (fit naive_env demo_world))) = []"
  by (simp add: run_defs seasonal_world_def seasonal_args_def upt_conv_Cons)




text \<open>
  Claim C6. In every branch of \<^verbatim>\<open>fit\<close> the model is constructed with
  \<^verbatim>\<open>simple_differencing=False\<close>, on the train part of the series, with the order
  \<open>(p, d, q)\<close> that the non-seasonal search returned and, when a seasonal order is
  passed, with the \<open>(P, D, Q)\<close> that the confirming seasonal search returned at the
  configured period.
\<close>

theorem fit_disables_simple_differencing:
  assumes "Call_SARIMAX a \<in> set (out (fst (fit env w)))"
    and "Call_SARIMAX a \<notin> set (out w)"
  shows "\<not> simple_differencing a
     \<and> endog a = train_of (forecast_period (self w)) (ts_df w)
     \<and> (\<exists>bic f. find_best_pdq_or_PDQ env (endog a) (metric (self w)) (p_max (self w))
            (d_max (self w)) (q_max (self w)) None None False (verbose (self w))
          = Inr (fst (order a), fst (snd (order a)), snd (snd (order a)), bic, f))
     \<and> (\<forall>P D Q sp. seasonal_order a = Some (P, D, Q, sp) \<longrightarrow>
            sp = seasonal_period (self w)
            \<and> (\<exists>bic. find_best_pdq_or_PDQ env (endog a) (metric (self w)) (p_max (self w))
                  (d_max (self w)) (q_max (self w)) (Some (order a)) (seasonal_period (self w))
                  True (verbose (self w))
                = Inr (P, D, Q, bic, True)))"
proof -
  define s where "s = self w"
  define tr where "tr = train_of (forecast_period s) (ts_df w)"
  define te where "te = test_of (forecast_period s) (ts_df w)"
  define w1 where "w1 = fst (announce_split s tr te w)"
  define G where "G = (\<lambda>e :: ('a, 'b) event. \<forall>a. e = Call_SARIMAX a \<longrightarrow>
       \<not> simple_differencing a \<and> endog a = tr
       \<and> (\<exists>bic f. find_best_pdq_or_PDQ env tr (metric s) (p_max s) (d_max s) (q_max s)
              None None False (verbose s)
            = Inr (fst (order a), fst (snd (order a)), snd (snd (order a)), bic, f))
       \<and> (\<forall>P D Q sp. seasonal_order a = Some (P, D, Q, sp) \<longrightarrow>
            sp = seasonal_period s
            \<and> (\<exists>bic. find_best_pdq_or_PDQ env tr (metric s) (p_max s) (d_max s) (q_max s)
                  (Some (order a)) (seasonal_period s) True (verbose s)
                = Inr (P, D, Q, bic, True))))"
  have "emits (\<lambda>e. \<not> is_SARIMAX e) (announce_split s tr te :: ('a, 'b, unit) prog)"
    by (rule emits_announce_split) simp
  from emits_mem[OF this, of "Call_SARIMAX a" w] assms(2)
  have w1: "Call_SARIMAX a \<notin> set (out w1)"
    unfolding w1_def by auto
  have c: "emits G (choose_model env s tr)"
    unfolding G_def by (rule emits_sarimax_choose_model)
  have t: "emits G (fit_and_evaluate env s (ts_df w) tr te bm d)" for bm d
    by (rule emits_weaken[OF emits_no_sarimax_tail]) (auto simp: G_def)
  have "Call_SARIMAX a \<in> set (out w1) \<or> G (Call_SARIMAX a)"
  proof (rule emits_pbind_mem[OF c])
    show "emits G (case x of (bestmodel, best_d) \<Rightarrow>
            fit_and_evaluate env s (ts_df w) tr te bestmodel best_d)" for x
      by (cases x) (simp add: t)
    show "Call_SARIMAX a \<in> set (out (fst (pbind (choose_model env s tr)
        (\<lambda>(bestmodel, best_d). fit_and_evaluate env s (ts_df w) tr te bestmodel best_d) w1)))"
      using assms(1) by (simp add: fit_eq w1_def s_def tr_def te_def)
  qed
  with w1 have "G (Call_SARIMAX a)" by simp
  then show ?thesis
    unfolding G_def s_def tr_def by auto
qed

theorem fit_disables_simple_differencing_witness:
  "Call_SARIMAX seasonal_args \<in> set (out (fst (fit naive_env seasonal_world)))
   \<and> Call_SARIMAX seasonal_args \<notin> set (out seasonal_world)
   \<and> seasonal_order seasonal_args = Some (0, 1, 1, Some 12)
   \<and> \<not> simple_differencing seasonal_args
   \<and> endog seasonal_args = train_of 2 demo_series
   \<and> find_best_pdq_or_PDQ naive_env (endog seasonal_args) ''bic'' 2 1 2
        (Some (order seasonal_args)) (Some 12) True 1 = Inr (0, 1, 1, Fin 8, True)"
proof -
  have h1: "Call_SARIMAX seasonal_args \<in> set (out (fst (fit naive_env seasonal_world)))"
    by (simp add: run_defs seasonal_world_def seasonal_args_def)
  have h2: "Call_SARIMAX seasonal_args \<notin> set (out seasonal_world)"
    by (simp add: seasonal_world_def)
  have h3: "seasonal_order seasonal_args = Some (0, 1, 1, Some 12)"
    by (simp add: seasonal_args_def)
  have h4: "find_best_pdq_or_PDQ naive_env (endog seasonal_args) ''bic'' 2 1 2
        (Some (order seasonal_args)) (Some 12) True 1 = Inr (0, 1, 1, Fin 8, True)"
    by (simp add: naive_env_def)
  have s: "forecast_period (self seasonal_world) = 2" "ts_df seasonal_world = demo_series"
    by (simp_all add: seasonal_world_def init_def)
  from fit_disables_simple_differencing[OF h1 h2] h1 h2 h3 h4 s show ?thesis
    by simp
qed

text \<open>
  Claim C7. Two series of the same length that agree on their first
  \<open>L - forecast_period\<close> rows lead \<^verbatim>\<open>fit\<close> to the same searches, the same constructor
  call and the same call of \<^verbatim>\<open>bestmodel.fit()\<close>, arguments included, and leave the same
  \<^verbatim>\<open>self.model\<close>: the values of the test rows reach neither the choice of the order
  nor the fitting of the model.
\<close>

theorem fit_selection_ignores_test_values:
  fixes env :: "('m, 'r) env" and w :: "('m, 'r) world"
  assumes len: "length xs = length ys"
    and pre: "take (nat (int (length xs) - forecast_period (self w))) xs
            = take (nat (int (length ys) - forecast_period (self w))) ys"
  shows "filter is_selection (out (fst (fit env (w\<lparr>ts_df := xs\<rparr>))))
           = filter is_selection (out (fst (fit env (w\<lparr>ts_df := ys\<rparr>))))
     \<and> model (self (fst (fit env (w\<lparr>ts_df := xs\<rparr>))))
           = model (self (fst (fit env (w\<lparr>ts_df := ys\<rparr>))))"
proof -
  define s where "s = self w"
  define tr where "tr = train_of (forecast_period s) xs"
  have tr': "train_of (forecast_period s) ys = tr"
    unfolding tr_def s_def using train_of_cong[OF len pre] by simp
  define tx where "tx = test_of (forecast_period s) xs"
  define ty where "ty = test_of (forecast_period s) ys"
  define w1x where "w1x = fst (announce_split s tr tx (w\<lparr>ts_df := xs\<rparr>))"
  define w1y where "w1y = fst (announce_split s tr ty (w\<lparr>ts_df := ys\<rparr>))"
  have fx: "fit env (w\<lparr>ts_df := xs\<rparr>) = pbind (choose_model env s tr)
       (\<lambda>(bestmodel, best_d). fit_and_evaluate env s xs tr tx bestmodel best_d) w1x"
    by (simp add: fit_eq w1x_def s_def tr_def tx_def)
  have fy: "fit env (w\<lparr>ts_df := ys\<rparr>) = pbind (choose_model env s tr)
       (\<lambda>(bestmodel, best_d). fit_and_evaluate env s ys tr ty bestmodel best_d) w1y"
    using tr' by (simp add: fit_eq w1y_def s_def ty_def)
  have ag1: "agree w1x w1y"
    by (simp add: w1x_def w1y_def announce_split_self agree_def)
  have o1: "filter is_selection (out w1x) = filter is_selection (out w1y)"
    by (simp add: w1x_def w1y_def announce_split_selection)
  define w2x where "w2x = fst (choose_model env s tr w1x)"
  define w2y where "w2y = fst (choose_model env s tr w1y)"
  from blindD[OF blind_choose_model ag1, of env s tr]
  obtain evs where r: "snd (choose_model env s tr w1x) = snd (choose_model env s tr w1y)"
    and ag2: "agree w2x w2y"
    and ox: "out w2x = out w1x @ evs" and oy: "out w2y = out w1y @ evs"
    unfolding w2x_def w2y_def by blast
  from ox oy o1 have o2: "filter is_selection (out w2x) = filter is_selection (out w2y)"
    by simp
  from ag2 have m2: "model (self w2x) = model (self w2y)"
    by (simp add: agree_def)
  show ?thesis
  proof (cases "snd (choose_model env s tr w1x)")
    case (Inl e)
    with r have "fit env (w\<lparr>ts_df := xs\<rparr>) = (w2x, Inl e)" "fit env (w\<lparr>ts_df := ys\<rparr>) = (w2y, Inl e)"
      unfolding fx fy w2x_def w2y_def by (simp_all add: pbind_Inl)
    with o2 m2 show ?thesis by simp
  next
    case (Inr p)
    obtain bm d where p: "p = (bm, d)" by (cases p)
    with Inr r have "fit env (w\<lparr>ts_df := xs\<rparr>) = fit_and_evaluate env s xs tr tx bm d w2x"
      "fit env (w\<lparr>ts_df := ys\<rparr>) = fit_and_evaluate env s ys tr ty bm d w2y"
      unfolding fx fy w2x_def w2y_def by (simp_all add: pbind_Inr)
    with o2 m2 show ?thesis by (simp add: tail_selection tail_model split: sum.splits)
  qed
qed

theorem fit_selection_ignores_test_values_witness:
  "length demo_series = length other_series
   \<and> take 3 demo_series = take 3 other_series
   \<and> demo_series \<noteq> other_series
   \<and> filter is_selection (out (fst (fit naive_env (demo_world\<lparr>ts_df := demo_series\<rparr>))))
       = filter is_selection (out (fst (fit naive_env (demo_world\<lparr>ts_df := other_series\<rparr>))))
   \<and> model (self (fst (fit naive_env (demo_world\<lparr>ts_df := demo_series\<rparr>))))
       = model (self (fst (fit naive_env (demo_world\<lparr>ts_df := other_series\<rparr>))))"
proof -
  have h1: "length demo_series = length other_series"
    by (simp add: demo_series_def other_series_def)
  have h2: "take (nat (int (length demo_series) - forecast_period (self demo_world))) demo_series
      = take (nat (int (length other_series) - forecast_period (self demo_world))) other_series"
    by (simp add: demo_series_def other_series_def demo_world_def init_def)
  have h3: "take 3 demo_series = take 3 other_series" "demo_series \<noteq> other_series"
    by (simp_all add: demo_series_def other_series_def)
  from fit_selection_ignores_test_values[OF h1 h2, of naive_env] h1 h3 show ?thesis
    by simp
qed

text \<open>
  Claim C8, as the code has it. \<^verbatim>\<open>fit\<close> hands \<^verbatim>\<open>self.verbose\<close> to the order search,
  and with \<^verbatim>\<open>verbose = 1\<close> it makes further calls of which only some are guarded.
  Provided the result of the search does not depend on the \<^verbatim>\<open>verbose\<close> it is given:
  whatever \<^verbatim>\<open>fit\<close> returns with \<^verbatim>\<open>verbose = 1\<close>, it returns the same tuple with any
  other \<^verbatim>\<open>verbose\<close>, and leaves the same \<^verbatim>\<open>self.model\<close>.
\<close>

theorem quiet_fit_returns_what_verbose_fit_returns:
  fixes env :: "('m, 'r) env" and w :: "('m, 'r) world"
  assumes v1: "verbose (self w) = 1" and v: "v \<noteq> 1"
    and indep: "\<forall>ts m p d q pdq sp b. find_best_pdq_or_PDQ env ts m p d q pdq sp b v
                  = find_best_pdq_or_PDQ env ts m p d q pdq sp b 1"
    and ret: "snd (fit env w) = Inr r"
  shows "snd (fit env (w\<lparr>self := (self w)\<lparr>verbose := v\<rparr>\<rparr>)) = Inr r
     \<and> model (self (fst (fit env (w\<lparr>self := (self w)\<lparr>verbose := v\<rparr>\<rparr>))))
         = model (self (fst (fit env w)))"
proof -
  define s where "s = self w"
  define s' where "s' = s\<lparr>verbose := v\<rparr>"
  define tr where "tr = train_of (forecast_period s) (ts_df w)"
  define te where "te = test_of (forecast_period s) (ts_df w)"
  define w' where "w' = w\<lparr>self := s'\<rparr>"
  define w1 where "w1 = fst (announce_split s tr te w)"
  define w1' where "w1' = fst (announce_split s' tr te w')"
  have f: "fit env w = pbind (choose_model env s tr)
       (\<lambda>(bestmodel, best_d). fit_and_evaluate env s (ts_df w) tr te bestmodel best_d) w1"
    by (simp add: fit_eq w1_def s_def tr_def te_def)
  have f': "fit env w' = pbind (choose_model env s' tr)
       (\<lambda>(bestmodel, best_d). fit_and_evaluate env s' (ts_df w) tr te bestmodel best_d) w1'"
    by (simp add: fit_eq w1'_def w'_def s'_def tr_def te_def)
  define w2 where "w2 = fst (choose_model env s tr w1)"
  define w2' where "w2' = fst (choose_model env s' tr w1')"
  have "self w2 = s" "self w2' = s'"
    using preservesD[OF preserves_self_choose_model, of env s tr w1]
      preservesD[OF preserves_self_choose_model, of env s' tr w1']
    by (simp_all add: w2_def w2'_def w1_def w1'_def announce_split_self s_def w'_def)
  then have ag2: "agree w2 w2'"
    by (simp add: agree_def s'_def)
  have indep': "\<forall>ts m p d q pdq sp b. find_best_pdq_or_PDQ env ts m p d q pdq sp b v
                  = find_best_pdq_or_PDQ env ts m p d q pdq sp b (verbose s)"
    using indep v1 by (simp add: s_def)
  have c: "snd (choose_model env s' tr w1') = snd (choose_model env s tr w1)"
    unfolding s'_def by (rule choose_model_ignores_verbose[OF indep'])
  show ?thesis
  proof (cases "snd (choose_model env s tr w1)")
    case (Inl e)
    then have "snd (fit env w) = Inl e" unfolding f by (simp add: snd_pbind)
    with ret show ?thesis by simp
  next
    case (Inr x)
    obtain bm d where x: "x = (bm, d)" by (cases x)
    from Inr x have t: "fit env w = fit_and_evaluate env s (ts_df w) tr te bm d w2"
      unfolding f w2_def by (simp add: pbind_Inr)
    from Inr x c have t': "fit env w' = fit_and_evaluate env s' (ts_df w) tr te bm d w2'"
      unfolding f' w2'_def by (simp add: pbind_Inr)
    from ret t have "snd (fit_and_evaluate env s (ts_df w) tr te bm d w2) = Inr r" by simp
    from tail_quiet[OF this v ag2] have r': "snd (fit env w') = Inr r"
      unfolding t' s'_def .
    have "model (self (fst (fit env w'))) = model (self (fst (fit env w)))"
      unfolding t t' tail_model using ag2 by (simp add: agree_def split: sum.splits)
    with r' show ?thesis unfolding w'_def s'_def s_def by simp
  qed
qed

theorem quiet_fit_returns_what_verbose_fit_returns_witness:
  "verbose (self verbose_world) = 1 \<and> (0 :: int) \<noteq> 1
   \<and> snd (fit naive_env verbose_world) = Inr (Fitted demo_args, Some [], Fin 2, Fin 1)
   \<and> snd (fit naive_env (verbose_world\<lparr>self := (self verbose_world)\<lparr>verbose := 0\<rparr>\<rparr>))
        = Inr (Fitted demo_args, Some [], Fin 2, Fin 1)"
proof -
  have h1: "verbose (self verbose_world) = 1"
    by (simp add: verbose_world_def init_def)
  have h2: "(0 :: int) \<noteq> 1" by simp
  have h3: "\<forall>ts m p d q pdq sp b. find_best_pdq_or_PDQ naive_env ts m p d q pdq sp b 0
                  = find_best_pdq_or_PDQ naive_env ts m p d q pdq sp b 1"
    by (simp add: naive_env_def)
  have h4: "snd (fit naive_env verbose_world) = Inr (Fitted demo_args, Some [], Fin 2, Fin 1)"
    by (simp add: run_defs verbose_world_def)
  from quiet_fit_returns_what_verbose_fit_returns[OF h1 h2 h3 h4] h1 h4 show ?thesis
    by simp
qed

text \<open>
  The claim as stated fails where no plot can be drawn: with \<^verbatim>\<open>verbose = 1\<close> the
  failure of \<^verbatim>\<open>plot_diagnostics\<close> is caught, the failure of the unguarded
  \<^verbatim>\<open>plot\<close> of line 144 leaves \<^verbatim>\<open>fit\<close>, and with \<^verbatim>\<open>verbose = 0\<close> the same input
  returns a fitted model and its errors.
\<close>

theorem plot_failure_leaves_fit_only_when_verbose:
  "snd (fit headless_env verbose_world) = Inl RuntimeError
   \<and> Print ''Error: SARIMAX plot diagnostic. Continuing...'' []
        \<in> set (out (fst (fit headless_env verbose_world)))
   \<and> snd (fit headless_env (verbose_world\<lparr>self := (self verbose_world)\<lparr>verbose := 0\<rparr>\<rparr>))
        = Inr (Fitted demo_args, Some [], Fin 2, Fin 1)"
  by (simp add: run_defs verbose_world_def)

text \<open>
  Claim C9. \<^verbatim>\<open>fit\<close> never modifies the series: on every path (a normal return,
  the sentinel return, a propagating exception) the frame \<^verbatim>\<open>ts_df\<close> is afterwards
  what it was before. The collaborators receive slices of the frame as values.
\<close>

theorem fit_leaves_ts_df: "ts_df (fst (fit env w)) = ts_df w"
  using preserves_ts_df_fit unfolding preserves_def by blast

text \<open>
  Claim C10. When \<^verbatim>\<open>self.seasonality\<close> is set and the seasonal search does not
  confirm seasonality, the one model that \<^verbatim>\<open>fit\<close> constructs has the arguments the
  non-seasonal branch passes for the same \<open>(p, d, q)\<close>: the train part, that order, no
  seasonal order, trend \<^verbatim>\<open>'ct'\<close>, start parameters \<^verbatim>\<open>[0, 0, 0, 1]\<close>. The same object
  with \<^verbatim>\<open>seasonality\<close> unset constructs the same model, and \<^verbatim>\<open>fit\<close> ends the same
  way on both.
\<close>

theorem unconfirmed_seasonal_model_is_nonseasonal:
  fixes env :: "('m, 'r) env" and w :: "('m, 'r) world"
  assumes seas: "seasonality (self w)"
    and r1: "find_best_pdq_or_PDQ env (train_of (forecast_period (self w)) (ts_df w))
           (metric (self w)) (p_max (self w)) (d_max (self w)) (q_max (self w)) None None False
           (verbose (self w)) = Inr (p, d, q, bic, f)"
    and r2: "find_best_pdq_or_PDQ env (train_of (forecast_period (self w)) (ts_df w))
           (metric (self w)) (p_max (self w)) (d_max (self w)) (q_max (self w)) (Some (p, d, q))
           (seasonal_period (self w)) True (verbose (self w)) = Inr (P, D, Q, bic', False)"
  shows "filter is_SARIMAX (out (fst (fit env w))) = filter is_SARIMAX (out w) @
           [Call_SARIMAX (model_args (train_of (forecast_period (self w)) (ts_df w)) (p, d, q) None)]
     \<and> filter is_SARIMAX (out (fst (fit env (w\<lparr>self := (self w)\<lparr>seasonality := False\<rparr>\<rparr>))))
         = filter is_SARIMAX (out w) @
           [Call_SARIMAX (model_args (train_of (forecast_period (self w)) (ts_df w)) (p, d, q) None)]
     \<and> snd (fit env (w\<lparr>self := (self w)\<lparr>seasonality := False\<rparr>\<rparr>)) = snd (fit env w)"
proof -
  define s where "s = self w"
  define s' where "s' = s\<lparr>seasonality := False\<rparr>"
  define tr where "tr = train_of (forecast_period s) (ts_df w)"
  define te where "te = test_of (forecast_period s) (ts_df w)"
  define w' where "w' = w\<lparr>self := s'\<rparr>"
  define w1 where "w1 = fst (announce_split s tr te w)"
  define w1' where "w1' = fst (announce_split s' tr te w')"
  define a where "a = model_args tr (p, d, q) None"
  have f: "fit env w = pbind (choose_model env s tr)
       (\<lambda>(bestmodel, best_d). fit_and_evaluate env s (ts_df w) tr te bestmodel best_d) w1"
    by (simp add: fit_eq w1_def s_def tr_def te_def)
  have f': "fit env w' = pbind (choose_model env s' tr)
       (\<lambda>(bestmodel, best_d). fit_and_evaluate env s (ts_df w) tr te bestmodel best_d) w1'"
    by (simp add: fit_eq w1'_def w'_def s'_def tr_def te_def tail_ignores_seasonality)
  have s: "seasonality s" "\<not> seasonality s'"
    using seas by (simp_all add: s_def s'_def)
  have q1: "find_best_pdq_or_PDQ env tr (metric s) (p_max s) (d_max s) (q_max s) None None False
           (verbose s) = Inr (p, d, q, bic, f)"
    using r1 by (simp add: s_def tr_def)
  have q2: "find_best_pdq_or_PDQ env tr (metric s) (p_max s) (d_max s) (q_max s)
           (Some (p, d, q)) (seasonal_period s) True (verbose s) = Inr (P, D, Q, bic', False)"
    using r2 by (simp add: s_def tr_def)
  have q1': "find_best_pdq_or_PDQ env tr (metric s') (p_max s') (d_max s') (q_max s') None None
           False (verbose s') = Inr (p, d, q, bic, f)"
    using q1 by (simp add: s'_def)
  note c = choose_unconfirmed[OF s(1) q1 q2, of w1, folded a_def]
  note c' = choose_nonseasonal[OF s(2) q1', of w1', folded a_def]
  have nt: "emits (\<lambda>e. \<not> is_SARIMAX e) (case x of (bestmodel, best_d) \<Rightarrow>
            fit_and_evaluate env s (ts_df w) tr te bestmodel best_d)" for x
    by (cases x) (simp add: emits_no_sarimax_tail)
  have o1: "filter is_SARIMAX (out w1) = filter is_SARIMAX (out w)"
    unfolding w1_def by (rule announce_split_filter) simp
  have o1': "filter is_SARIMAX (out w1') = filter is_SARIMAX (out w)"
    unfolding w1'_def by (simp add: announce_split_filter w'_def)
  have e: "filter is_SARIMAX (out (fst (fit env w))) = filter is_SARIMAX (out w) @ [Call_SARIMAX a]"
    unfolding f emits_filter_pbind[of is_SARIMAX, OF nt] c(2) o1 ..
  have e': "filter is_SARIMAX (out (fst (fit env w'))) = filter is_SARIMAX (out w) @ [Call_SARIMAX a]"
    unfolding f' emits_filter_pbind[of is_SARIMAX, OF nt] c'(2) o1' ..
  have ag1: "agree w1 w1'"
    by (simp add: w1_def w1'_def announce_split_self agree_def w'_def s'_def s_def)
  have ag2: "agree (fst (choose_model env s tr w1)) (fst (choose_model env s' tr w1'))"
    using ag1 preservesD[OF preserves_self_choose_model, of env s tr w1]
      preservesD[OF preserves_self_choose_model, of env s' tr w1']
    by (simp add: agree_def)
  have r: "snd (fit env w') = snd (fit env w)"
  proof (cases "SARIMAX env a")
    case (Inl e)
    with c(1) c'(1) show ?thesis
      unfolding f f' by (simp add: pbind_Inl)
  next
    case (Inr bm)
    with c(1) c'(1) have "fit env w = fit_and_evaluate env s (ts_df w) tr te bm d
          (fst (choose_model env s tr w1))"
      and "fit env w' = fit_and_evaluate env s (ts_df w) tr te bm d
          (fst (choose_model env s' tr w1'))"
      unfolding f f' by (simp_all add: pbind_Inr)
    moreover from blindD[OF blind_fit_and_evaluate ag2]
    have "snd (fit_and_evaluate env s (ts_df w) tr te bm d (fst (choose_model env s tr w1)))
        = snd (fit_and_evaluate env s (ts_df w) tr te bm d (fst (choose_model env s' tr w1')))"
      by blast
    ultimately show ?thesis by simp
  qed
  from e e' r show ?thesis
    unfolding a_def tr_def w'_def s'_def s_def by simp
qed

theorem unconfirmed_seasonal_model_is_nonseasonal_witness:
  "seasonality (self unconfirmed_world)
   \<and> find_best_pdq_or_PDQ naive_env [(1, 10), (2, 11), (3, 12)] ''bic'' 2 1 2
        (Some (1, 1, 0)) (Some 7) True 0 = Inr (0, 1, 1, Fin 8, False)
   \<and> filter is_SARIMAX (out (fst (fit naive_env unconfirmed_world))) = [Call_SARIMAX demo_args]
   \<and> filter is_SARIMAX (out (fst (fit naive_env
          (unconfirmed_world\<lparr>self := (self unconfirmed_world)\<lparr>seasonality := False\<rparr>\<rparr>))))
        = [Call_SARIMAX demo_args]
   \<and> snd (fit naive_env (unconfirmed_world\<lparr>self := (self unconfirmed_world)\<lparr>seasonality := False\<rparr>\<rparr>))
        = snd (fit naive_env unconfirmed_world)"
proof -
  have s: "self unconfirmed_world = init ''bic'' True (Some 7) 2 1 2 2 0"
    "ts_df unconfirmed_world = demo_series" "out unconfirmed_world = []"
    by (simp_all add: unconfirmed_world_def)
  have tr: "train_of (forecast_period (self unconfirmed_world)) (ts_df unconfirmed_world)
      = [(1, 10), (2, 11), (3, 12)]"
    by (simp add: s init_def demo_series_def train_of_def slice_to_def slice_bound_def)
  have h1: "seasonality (self unconfirmed_world)"
    by (simp add: s init_def)
  have h2: "find_best_pdq_or_PDQ naive_env
      (train_of (forecast_period (self unconfirmed_world)) (ts_df unconfirmed_world))
      (metric (self unconfirmed_world)) (p_max (self unconfirmed_world))
      (d_max (self unconfirmed_world)) (q_max (self unconfirmed_world)) None None False
      (verbose (self unconfirmed_world)) = Inr (1, 1, 0, Fin 10, False)"
    by (simp add: naive_env_def)
  have h3: "find_best_pdq_or_PDQ naive_env
      (train_of (forecast_period (self unconfirmed_world)) (ts_df unconfirmed_world))
      (metric (self unconfirmed_world)) (p_max (self unconfirmed_world))
      (d_max (self unconfirmed_world)) (q_max (self unconfirmed_world)) (Some (1, 1, 0))
      (seasonal_period (self unconfirmed_world)) True
      (verbose (self unconfirmed_world)) = Inr (0, 1, 1, Fin 8, False)"
    by (simp add: naive_env_def s init_def)
  have h4: "find_best_pdq_or_PDQ naive_env [(1, 10), (2, 11), (3, 12)] ''bic'' 2 1 2
        (Some (1, 1, 0)) (Some 7) True 0 = Inr (0, 1, 1, Fin 8, False)"
    by (simp add: naive_env_def)
  from unconfirmed_seasonal_model_is_nonseasonal[OF h1 h2 h3] h1 h4 show ?thesis
    by (simp add: tr model_args_def demo_args_def s(3))
qed

end
